theory Spec2Isabelle
  imports Main "HOL-Library.Sublist"
begin

section \<open>JavaScript strings\<close>

text \<open>
  A JavaScript string is modelled as a list of characters (bytes; a character outside
  ASCII is its UTF-8 bytes).  \<^verbatim>\<open>trim\<close> and the regular expression class \<^verbatim>\<open>\s\<close>
  are modelled on the six ASCII white-space characters, \<^verbatim>\<open>toLowerCase\<close> on the
  letters A to Z; Unicode white space and case mappings beyond ASCII are outside the
  model.
\<close>

definition is_space :: "char \<Rightarrow> bool" where
  "is_space c = (c \<in> set [CHR 0x20, CHR 0x09, CHR 0x0A, CHR 0x0B, CHR 0x0C, CHR 0x0D])"

definition trim :: "string \<Rightarrow> string" where
  "trim s = rev (dropWhile is_space (rev (dropWhile is_space s)))"

definition toLowerChar :: "char \<Rightarrow> char" where
  "toLowerChar c =
     (case map_of (zip ''ABCDEFGHIJKLMNOPQRSTUVWXYZ'' ''abcdefghijklmnopqrstuvwxyz'') c of
        Some l \<Rightarrow> l
      | None \<Rightarrow> c)"

definition toLowerCase :: "string \<Rightarrow> string" where
  "toLowerCase s = map toLowerChar s"

text \<open>\<^verbatim>\<open>s.includes(t)\<close>: \<open>t\<close> occurs in \<open>s\<close> as a contiguous run.\<close>

definition includes_str :: "string \<Rightarrow> string \<Rightarrow> bool" where
  "includes_str s t = sublist t s"

text \<open>\<^verbatim>\<open>String(n)\<close> for an integer \<open>n\<close> (decimal digits, a minus sign when negative).\<close>

fun string_of_nat :: "nat \<Rightarrow> string" where
  "string_of_nat n =
     (if n < 10 then [''0123456789'' ! n]
      else string_of_nat (n div 10) @ [''0123456789'' ! (n mod 10)])"

declare string_of_nat.simps [simp del]

definition string_of_int :: "int \<Rightarrow> string" where
  "string_of_int i = (if i < 0 then CHR ''-'' # string_of_nat (nat (- i)) else string_of_nat (nat i))"

definition trimmed :: "string \<Rightarrow> bool" where
  "trimmed s = (s = [] \<or> (\<not> is_space (hd s) \<and> \<not> is_space (last s)))"

section \<open>Window slot allocator (src/src/main.ts, lines 13-29)\<close>

text \<open>
  \<^verbatim>\<open>usedWindowPositions\<close> is a global \<^verbatim>\<open>Set<number>\<close>; the model passes it
  explicitly.  \<^verbatim>\<open>getNextWindowPosition\<close> scans \<^verbatim>\<open>i = 0 .. MAX_WINDOWS - 1\<close>, adds
  and returns the first index that is not in the set, and returns 0 without touching
  the set when the scan finds none.
\<close>

definition MAX_WINDOWS :: nat where
  "MAX_WINDOWS = 5"

function scanWindowPositions :: "nat \<Rightarrow> nat set \<Rightarrow> nat \<times> nat set" where
  "scanWindowPositions i used =
     (if i < MAX_WINDOWS
      then (if i \<notin> used then (i, insert i used) else scanWindowPositions (i + 1) used)
      else (0, used))"
  by pat_completeness auto
termination
  by (relation "measure (\<lambda>(i, used). MAX_WINDOWS - i)") auto

declare scanWindowPositions.simps [simp del]

definition getNextWindowPosition :: "nat set \<Rightarrow> nat \<times> nat set" where
  "getNextWindowPosition used = scanWindowPositions 0 used"

definition releaseWindowPosition :: "nat \<Rightarrow> nat set \<Rightarrow> nat set" where
  "releaseWindowPosition index used = used - {index}"

text \<open>
  A sequence of acquire/release operations, as the login handler issues them: every
  login calls \<^verbatim>\<open>getNextWindowPosition\<close> once and later releases the index it was
  given.  Beside the set of the code, the state records which indices are held by
  logins that have not released yet (\<open>held\<close>, one entry per acquisition); this list
  is bookkeeping of the model, the code has only the set.
\<close>

datatype slot_op = Acquire | Release nat

record alloc_state =
  used :: "nat set"
  held :: "nat list"

definition alloc_init :: alloc_state where
  "alloc_init = \<lparr>used = {}, held = []\<rparr>"

fun alloc_step :: "alloc_state \<Rightarrow> slot_op \<Rightarrow> alloc_state" where
  "alloc_step s Acquire =
     (case getNextWindowPosition (used s) of
        (i, u) \<Rightarrow> \<lparr>used = u, held = held s @ [i]\<rparr>)"
| "alloc_step s (Release i) =
     \<lparr>used = releaseWindowPosition i (used s), held = remove1 i (held s)\<rparr>"

fun alloc_run :: "alloc_state \<Rightarrow> slot_op list \<Rightarrow> alloc_state" where
  "alloc_run s [] = s"
| "alloc_run s (x # xs) = alloc_run (alloc_step s x) xs"

text \<open>At most \<open>MAX_WINDOWS\<close> acquisitions are held after every step of the run.\<close>

fun within_capacity :: "alloc_state \<Rightarrow> slot_op list \<Rightarrow> bool" where
  "within_capacity s [] = True"
| "within_capacity s (x # xs) =
     (length (held (alloc_step s x)) \<le> MAX_WINDOWS \<and> within_capacity (alloc_step s x) xs)"

definition alloc_inv :: "alloc_state \<Rightarrow> bool" where
  "alloc_inv s = (distinct (held s) \<and> set (held s) = used s \<and> used s \<subseteq> {0..<MAX_WINDOWS})"

section \<open>Credential store (src/src/credentials-reader.ts)\<close>

record ProfileCredentials =
  profileId :: string
  profileName :: string
  email :: string
  password :: string
  twoFactorSecret :: "string option"

text \<open>
  A cell of the sheet as \<^verbatim>\<open>XLSX.utils.sheet_to_json\<close> hands it over: a string, a
  number (integers are modelled) or a boolean.  A row is the object of one sheet
  line: its own keys, in the order of \<^verbatim>\<open>Object.keys\<close>, each with its value.
  A property the row does not have reads as \<^verbatim>\<open>undefined\<close>, here \<open>None\<close>.
\<close>

datatype cell = CStr string | CNum int | CBool bool

type_synonym row = "(string \<times> cell) list"

fun js_truthy :: "cell option \<Rightarrow> bool" where
  "js_truthy None = False"
| "js_truthy (Some (CStr s)) = (s \<noteq> [])"
| "js_truthy (Some (CNum n)) = (n \<noteq> 0)"
| "js_truthy (Some (CBool b)) = b"

definition js_or :: "cell option \<Rightarrow> cell option \<Rightarrow> cell option" where
  "js_or a b = (if js_truthy a then a else b)"

fun js_String :: "cell option \<Rightarrow> string" where
  "js_String None = ''undefined''"
| "js_String (Some (CStr s)) = s"
| "js_String (Some (CNum n)) = string_of_int n"
| "js_String (Some (CBool b)) = (if b then ''true'' else ''false'')"

definition cleanKey :: "string \<Rightarrow> string" where
  "cleanKey key = filter (\<lambda>c. \<not> is_space c) (toLowerCase (trim key))"

definition normalizeRow :: "row \<Rightarrow> (string \<rightharpoonup> cell)" where
  "normalizeRow r = fold (\<lambda>(key, v) normalizedRow. normalizedRow(cleanKey key \<mapsto> v)) r Map.empty"

definition parseRow :: "row \<Rightarrow> ProfileCredentials option" where
  "parseRow r =
     (let normalizedRow = normalizeRow r;
          pId = js_or (normalizedRow ''profileid'') (normalizedRow ''id'');
          pName = js_or (normalizedRow ''profilename'') (normalizedRow ''name'');
          email = js_or (js_or (normalizedRow ''email'') (normalizedRow ''username''))
                    (normalizedRow ''user'');
          pass = js_or (normalizedRow ''password'') (normalizedRow ''pass'')
      in if js_truthy pId \<and> js_truthy email \<and> js_truthy pass
         then Some \<lparr>profileId = trim (js_String pId),
                     profileName = trim (js_String (js_or pName (Some (CStr [])))),
                     email = trim (js_String email),
                     password = trim (js_String pass),
                     twoFactorSecret =
                       (if js_truthy (normalizedRow ''twofactorsecret'')
                        then Some (trim (js_String (normalizedRow ''twofactorsecret'')))
                        else None)\<rparr>
         else None)"

text \<open>The loop over \<^verbatim>\<open>rawData\<close>: every row that passes the check is pushed.\<close>

fun collectProfiles :: "row list \<Rightarrow> ProfileCredentials list" where
  "collectProfiles [] = []"
| "collectProfiles (r # rs) =
     (case parseRow r of
        Some p \<Rightarrow> p # collectProfiles rs
      | None \<Rightarrow> collectProfiles rs)"

record load_result =
  success :: bool
  count :: nat
  message :: string

text \<open>
  \<^verbatim>\<open>sessionCredentials\<close> is a module variable; the loaders take it and return it.
  \<^verbatim>\<open>parseExcelWorkbook\<close> gets the rows of the first sheet (no rows when the
  workbook has no sheet).
\<close>

definition parseExcelWorkbook ::
  "ProfileCredentials list \<Rightarrow> row list \<Rightarrow> load_result \<times> ProfileCredentials list" where
  "parseExcelWorkbook sessionCredentials rawData =
     (if rawData = []
      then (\<lparr>success = False, count = 0, message = ''Excel file is empty''\<rparr>, sessionCredentials)
      else let profiles = collectProfiles rawData in
        if length profiles > 0
        then (\<lparr>success = True, count = length profiles,
                message = ''Loaded '' @ string_of_nat (length profiles) @ '' profiles from Excel''\<rparr>,
              profiles)
        else (\<lparr>success = False, count = 0,
                message = ''No valid profiles found (Check headers: profileId, email, password)''\<rparr>,
              sessionCredentials))"

text \<open>
  What the XLSX library returns for the file or buffer: it throws (\<open>Inl\<close>, the
  message of the exception) or yields the rows of the first sheet.
\<close>

type_synonym xlsx_read = "string + row list"

definition loadCredentialsFromExcel ::
  "ProfileCredentials list \<Rightarrow> xlsx_read \<Rightarrow> load_result \<times> ProfileCredentials list" where
  "loadCredentialsFromExcel sessionCredentials wb =
     (case wb of
        Inr rawData \<Rightarrow> parseExcelWorkbook sessionCredentials rawData
      | Inl msg \<Rightarrow>
          (\<lparr>success = False, count = 0, message = ''Excel Error: '' @ msg\<rparr>, sessionCredentials))"

definition loadCredentialsFromExcelBuffer ::
  "ProfileCredentials list \<Rightarrow> xlsx_read \<Rightarrow> load_result \<times> ProfileCredentials list" where
  "loadCredentialsFromExcelBuffer sessionCredentials wb =
     (case wb of
        Inr rawData \<Rightarrow> parseExcelWorkbook sessionCredentials rawData
      | Inl msg \<Rightarrow>
          (\<lparr>success = False, count = 0, message = ''Excel Buffer Error: '' @ msg\<rparr>,
           sessionCredentials))"

definition getCredentialsByProfileId ::
  "ProfileCredentials list \<Rightarrow> string \<Rightarrow> ProfileCredentials option" where
  "getCredentialsByProfileId sessionCredentials pid =
     find (\<lambda>p. profileId p = trim pid) sessionCredentials"

definition getCredentialsByProfileName ::
  "ProfileCredentials list \<Rightarrow> string \<Rightarrow> ProfileCredentials option" where
  "getCredentialsByProfileName sessionCredentials pname =
     (if pname = [] then None
      else find (\<lambda>p. trim (toLowerCase (profileName p)) = trim (toLowerCase pname))
             sessionCredentials)"

text \<open>Sample sheets and the store the first one loads.\<close>

definition sample_rows :: "row list" where
  "sample_rows =
     [[(''Profile ID'', CStr ''p1''), (''Profile Name'', CStr ''Shop''),
       (''Email'', CStr ''a@x.com''), (''Password'', CStr ''pw1'')],
      [(''id'', CStr ''p2''), (''name'', CStr ''Shop A''),
       (''user'', CStr ''b@x.com''), (''pass'', CNum 1234), (''TwoFactorSecret'', CStr ''ABCD'')],
      [(''id'', CStr ''p3''), (''name'', CStr ''No Mail''), (''password'', CStr ''pw3'')]]"

definition sample_store :: "ProfileCredentials list" where
  "sample_store =
     [\<lparr>profileId = ''p1'', profileName = ''Shop'', email = ''a@x.com'', password = ''pw1'',
        twoFactorSecret = None\<rparr>,
      \<lparr>profileId = ''p2'', profileName = ''Shop A'', email = ''b@x.com'', password = ''1234'',
        twoFactorSecret = Some ''ABCD''\<rparr>]"

definition malformed_rows :: "row list" where
  "malformed_rows =
     [[(''id'', CStr ''p9''), (''name'', CStr ''No Mail''), (''password'', CStr ''pw9'')],
      [(''id'', CNum 0), (''email'', CStr ''z@x.com''), (''password'', CStr ''pw0'')]]"

section \<open>ECMAScript time values (the Date built-ins that main.ts calls)\<close>

text \<open>
  \<^verbatim>\<open>getMonthTimestamps\<close> calls \<^verbatim>\<open>Date.UTC\<close> and \<^verbatim>\<open>new Date(y, m, d).getDate()\<close>.
  They are modelled by the abstract operations of ECMA-262 (section "Date Objects"):
  a time value is an integer number of milliseconds since 1970-01-01T00:00:00Z, the
  proleptic Gregorian calendar is given by \<open>DaysInYear\<close> and \<open>DayFromYear\<close>, and
  \<^verbatim>\<open>NaN\<close> (an invalid date) is \<open>None\<close>.
\<close>

definition msPerDay :: int where "msPerDay = 86400000"
definition msPerHour :: int where "msPerHour = 3600000"
definition msPerMinute :: int where "msPerMinute = 60000"
definition msPerSecond :: int where "msPerSecond = 1000"

definition Day :: "int \<Rightarrow> int" where
  "Day t = t div msPerDay"


definition DaysInYear :: "int \<Rightarrow> int" where
  "DaysInYear y =
     (if y mod 4 \<noteq> 0 then 365
      else if y mod 100 \<noteq> 0 then 366
      else if y mod 400 \<noteq> 0 then 365
      else 366)"

definition DayFromYear :: "int \<Rightarrow> int" where
  "DayFromYear y =
     365 * (y - 1970) + (y - 1969) div 4 - (y - 1901) div 100 + (y - 1601) div 400"

text \<open>
  \<open>YearFromTime t\<close> is the largest \<open>y\<close> with \<open>TimeFromYear y \<le> t\<close>.  It is computed
  by a search upwards from a year that is not too late (\<open>yearGuess\<close>: no year has
  more than 366 days and none fewer than 365).
\<close>

definition yearGuess :: "int \<Rightarrow> int" where
  "yearGuess d = 1970 + (if 0 \<le> d then d div 366 else d div 365)"

function yearSearch :: "int \<Rightarrow> int \<Rightarrow> int" where
  "yearSearch d y = (if DayFromYear (y + 1) \<le> d then yearSearch d (y + 1) else y)"
  by pat_completeness auto
termination
proof (relation "measure (\<lambda>(d, y). nat (d - DayFromYear y))")
  show "wf (measure (\<lambda>(d, y). nat (d - DayFromYear y)))" by simp
next
  fix d y :: int
  assume le: "DayFromYear (y + 1) \<le> d"
  define p4 q4 p100 q100 p400 q400 where
    "p4 = (y - 1969) div 4" and "q4 = (y + 1 - 1969) div 4" and
    "p100 = (y - 1901) div 100" and "q100 = (y + 1 - 1901) div 100" and
    "p400 = (y - 1601) div 400" and "q400 = (y + 1 - 1601) div 400"
  have a: "p4 \<le> q4"
    unfolding p4_def q4_def by (rule zdiv_mono1) simp_all
  have b: "q100 \<le> p100 + 1"
    unfolding p100_def q100_def by linarith
  have c: "p400 \<le> q400"
    unfolding p400_def q400_def by (rule zdiv_mono1) simp_all
  have e1: "DayFromYear y = 365 * (y - 1970) + p4 - p100 + p400"
    by (simp add: DayFromYear_def p4_def p100_def p400_def)
  have e2: "DayFromYear (y + 1) = 365 * (y + 1 - 1970) + q4 - q100 + q400"
    by (simp add: DayFromYear_def q4_def q100_def q400_def)
  have "DayFromYear y < DayFromYear (y + 1)"
    unfolding e1 e2 using a b c by simp
  with le show "((d, y + 1), (d, y)) \<in> measure (\<lambda>(d, y). nat (d - DayFromYear y))"
    by simp
qed

declare yearSearch.simps [simp del]

definition YearFromTime :: "int \<Rightarrow> int" where
  "YearFromTime t = yearSearch (Day t) (yearGuess (Day t))"

definition InLeapYear :: "int \<Rightarrow> int" where
  "InLeapYear t = (if DaysInYear (YearFromTime t) = 365 then 0 else 1)"

definition DayWithinYear :: "int \<Rightarrow> int" where
  "DayWithinYear t = Day t - DayFromYear (YearFromTime t)"

definition MonthFromTime :: "int \<Rightarrow> int" where
  "MonthFromTime t =
     (let d = DayWithinYear t; L = InLeapYear t in
      if d < 31 then 0
      else if d < 59 + L then 1
      else if d < 90 + L then 2
      else if d < 120 + L then 3
      else if d < 151 + L then 4
      else if d < 181 + L then 5
      else if d < 212 + L then 6
      else if d < 243 + L then 7
      else if d < 273 + L then 8
      else if d < 304 + L then 9
      else if d < 334 + L then 10
      else 11)"

definition DateFromTime :: "int \<Rightarrow> int" where
  "DateFromTime t =
     (let d = DayWithinYear t; L = InLeapYear t; m = MonthFromTime t in
      if m = 0 then d + 1
      else if m = 1 then d - 30
      else if m = 2 then d - 58 - L
      else if m = 3 then d - 89 - L
      else if m = 4 then d - 119 - L
      else if m = 5 then d - 150 - L
      else if m = 6 then d - 180 - L
      else if m = 7 then d - 211 - L
      else if m = 8 then d - 242 - L
      else if m = 9 then d - 272 - L
      else if m = 10 then d - 303 - L
      else d - 333 - L)"

definition MakeTime :: "int \<Rightarrow> int \<Rightarrow> int \<Rightarrow> int \<Rightarrow> int" where
  "MakeTime hour minute sec ms = hour * msPerHour + minute * msPerMinute + sec * msPerSecond + ms"

text \<open>
  \<open>MakeDay year month date\<close>: the day number of the first of month \<open>month mod 12\<close> in
  year \<open>year + month div 12\<close>, plus \<open>date - 1\<close>.  \<open>monthStart L mn\<close> is the day within
  the year on which month \<open>mn\<close> starts (\<open>L = 1\<close> in a leap year), the boundaries of
  ECMA-262's \<open>MonthFromTime\<close>.
\<close>

definition monthStart :: "int \<Rightarrow> int \<Rightarrow> int" where
  "monthStart L mn =
     (if mn = 0 then 0
      else if mn = 1 then 31
      else if mn = 2 then 59 + L
      else if mn = 3 then 90 + L
      else if mn = 4 then 120 + L
      else if mn = 5 then 151 + L
      else if mn = 6 then 181 + L
      else if mn = 7 then 212 + L
      else if mn = 8 then 243 + L
      else if mn = 9 then 273 + L
      else if mn = 10 then 304 + L
      else 334 + L)"

definition MakeDay :: "int \<Rightarrow> int \<Rightarrow> int \<Rightarrow> int" where
  "MakeDay year month date =
     (let ym = year + month div 12;
          mn = month mod 12;
          L = (if DaysInYear ym = 365 then 0 else 1)
      in DayFromYear ym + monthStart L mn + date - 1)"

definition MakeDate :: "int \<Rightarrow> int \<Rightarrow> int" where
  "MakeDate day time = day * msPerDay + time"

definition TimeClip :: "int \<Rightarrow> int option" where
  "TimeClip time = (if \<bar>time\<bar> > 8640000000000000 then None else Some time)"

text \<open>A year from 0 to 99 given to \<^verbatim>\<open>Date.UTC\<close> or \<^verbatim>\<open>new Date\<close> means 1900 + year.\<close>

definition MakeFullYear :: "int \<Rightarrow> int" where
  "MakeFullYear year = (if 0 \<le> year \<and> year \<le> 99 then 1900 + year else year)"

definition Date_UTC :: "int \<Rightarrow> int \<Rightarrow> int \<Rightarrow> int \<Rightarrow> int \<Rightarrow> int \<Rightarrow> int \<Rightarrow> int option" where
  "Date_UTC year month date hours minutes seconds ms =
     TimeClip (MakeDate (MakeDay (MakeFullYear year) month date)
                 (MakeTime hours minutes seconds ms))"

text \<open>
  \<^verbatim>\<open>new Date(year, month, date).getDate()\<close>: the date is built from local-time
  fields and read back in local time, so the day of the month does not depend on
  the zone of the machine; the conversion to UTC and back is left out.
\<close>

definition Date_local_getDate :: "int \<Rightarrow> int \<Rightarrow> int \<Rightarrow> int option" where
  "Date_local_getDate year month date =
     map_option DateFromTime (TimeClip (MakeDate (MakeDay (MakeFullYear year) month date) 0))"

section \<open>Monthly settlement series (src/src/main.ts, lines 311-366)\<close>

definition getMonthTimestamps :: "int \<Rightarrow> int \<Rightarrow> int option \<times> int option" where
  "getMonthTimestamps year month =
     (let startDate = Date_UTC year month 1 8 0 0 0;
          lastDay = Date_local_getDate year (month + 1) 0;
          endDate = (case lastDay of
                       None \<Rightarrow> None
                     | Some ld \<Rightarrow> Date_UTC year month ld 31 59 59 999)
      in (startDate, endDate))"

record month_entry =
  date_time_lower :: "int option"
  date_time_upper :: "int option"
  settlement :: string

text \<open>
  The monthly statistic request: it throws, or it answers with a body in which
  \<^verbatim>\<open>data.finance_report_stat.total_settlement.format_with_symbol\<close> is present or
  not.  The replies are an input of the model, one per window.
\<close>

datatype http_reply = HttpThrows | HttpBody "string option"

definition fetchMonth ::
  "(int option \<Rightarrow> int option \<Rightarrow> http_reply) \<Rightarrow> int \<Rightarrow> int \<Rightarrow> month_entry" where
  "fetchMonth api year month =
     (case getMonthTimestamps year month of
        (lower, upper) \<Rightarrow>
          (case api lower upper of
             HttpBody (Some s) \<Rightarrow>
               \<lparr>date_time_lower = lower, date_time_upper = upper,
                settlement = (if s = [] then ''$0'' else s)\<rparr>
           | HttpBody None \<Rightarrow>
               \<lparr>date_time_lower = lower, date_time_upper = upper, settlement = ''$0''\<rparr>
           | HttpThrows \<Rightarrow>
               \<lparr>date_time_lower = lower, date_time_upper = upper, settlement = ''Error''\<rparr>))"

text \<open>
  \<^verbatim>\<open>for (let month = 0; month < bound; month++) monthlyData.push(await fetchMonth(year, month))\<close>.
  The second loop of the source runs while \<^verbatim>\<open>month <= currentMonth\<close>, which on
  integers is \<open>month < currentMonth + 1\<close>.
\<close>

function monthLoop :: "(int \<Rightarrow> month_entry) \<Rightarrow> int \<Rightarrow> int \<Rightarrow> month_entry list \<Rightarrow> month_entry list" where
  "monthLoop f month bound monthlyData =
     (if month < bound then monthLoop f (month + 1) bound (monthlyData @ [f month])
      else monthlyData)"
  by pat_completeness auto
termination
  by (relation "measure (\<lambda>(f, month, bound, monthlyData). nat (bound - month))") auto

declare monthLoop.simps [simp del]

text \<open>\<open>currentYear\<close> and \<open>currentMonth\<close> are \<^verbatim>\<open>now.getFullYear()\<close> and \<^verbatim>\<open>now.getMonth()\<close>.\<close>

definition monthlySeries ::
  "(int option \<Rightarrow> int option \<Rightarrow> http_reply) \<Rightarrow> int \<Rightarrow> int \<Rightarrow> month_entry list" where
  "monthlySeries api currentYear currentMonth =
     (let prevYear = currentYear - 1;
          monthlyData = monthLoop (fetchMonth api prevYear) 0 12 []
      in monthLoop (fetchMonth api currentYear) 0 (currentMonth + 1) monthlyData)"



section \<open>Seller identifiers from a URL (src/src/main.ts, lines 81-94)\<close>

text \<open>
  A URL as the code sees it: its text, for the \<^verbatim>\<open>includes\<close> tests, and what the
  \<^verbatim>\<open>URL\<close> constructor makes of it, the list of query parameters or \<open>None\<close> when the
  constructor throws.  \<^verbatim>\<open>searchParams.get\<close> returns the first value of a name.
\<close>

record js_url =
  href :: string
  searchParams :: "(string \<times> string) list option"

record seller_info =
  info_sellerId :: string
  info_oecSellerId :: string

definition extractSellerIdFromUrl :: "js_url \<Rightarrow> seller_info option" where
  "extractSellerIdFromUrl url =
     (case searchParams url of
        None \<Rightarrow> None
      | Some params \<Rightarrow>
          (case (map_of params ''seller_id'', map_of params ''oec_seller_id'') of
             (Some sellerId, Some oecSellerId) \<Rightarrow>
               if sellerId \<noteq> [] \<and> oecSellerId \<noteq> []
               then Some \<lparr>info_sellerId = sellerId, info_oecSellerId = oecSellerId\<rparr>
               else None
           | _ \<Rightarrow> None))"

section \<open>The control plane and the trace of a job\<close>

text \<open>
  What the control plane answers.  A start request resolves with \<^verbatim>\<open>code\<close>,
  \<^verbatim>\<open>data.success\<close> and \<^verbatim>\<open>data.port\<close>, or rejects with an HTTP status (none for a
  transport fault) and a message; a status request resolves with the port, if the
  body has one, or rejects; a stop request resolves or rejects.
\<close>

datatype start_reply = StartResolved int bool nat | StartRejected "nat option" string
datatype status_reply = StatusResolved "nat option" | StatusRejected string
datatype stop_reply = StopResolved | StopRejected string

text \<open>
  The trace of a job: its requests to the control plane with their replies, its
  sleeps, the connection to the browser, and the requests of the direct data
  client (the statistic request carries the harvested session).
\<close>

datatype event =
    CallStart string start_reply
  | CallStatus string status_reply
  | CallStop string stop_reply
  | Sleep nat
  | BrowserConnect nat
  | StatApi string string string
  | PaymentApi string string
  | MonthlyApi

text \<open>The outcome of starting a profile: a debug port, the 400 answer, or an exception.\<close>

datatype start_outcome = Port nat | InUse400 | StartThrown string

text \<open>
  The start block shared by the batch job (lines 896-927), the run-and-fetch handler
  (lines 804-835) and the login handler (lines 619-647); they differ in the two
  messages only.
\<close>

definition startProfile ::
  "string \<Rightarrow> string \<Rightarrow> start_reply \<Rightarrow> status_reply \<Rightarrow> string
     \<Rightarrow> event list \<times> start_outcome" where
  "startProfile failedMsg conflictMsg startR statusR pid =
     (case startR of
        StartResolved code ok port \<Rightarrow>
          ([CallStart pid startR],
           if code \<noteq> 1 \<or> \<not> ok then StartThrown failedMsg else Port port)
      | StartRejected statusCode m \<Rightarrow>
          if statusCode = Some 409
          then ([CallStart pid startR, CallStatus pid statusR],
                case statusR of
                  StatusResolved (Some port) \<Rightarrow>
                    if port \<noteq> 0 then Port port else StartThrown conflictMsg
                | StatusResolved None \<Rightarrow> StartThrown conflictMsg
                | StatusRejected e \<Rightarrow> StartThrown conflictMsg)
          else if statusCode = Some 400
          then ([CallStart pid startR], InUse400)
          else ([CallStart pid startR], StartThrown m))"

section \<open>Session extraction and direct fetch: fetchTikTokDataFast (src/src/main.ts, lines 119-382)\<close>

record cookie =
  cookie_name :: string
  cookie_value :: string

text \<open>
  The page content that \<^verbatim>\<open>page.evaluate\<close> inspects: the \<^verbatim>\<open>atlas-data\<close> element
  (absent, not valid JSON, or parsed with its \<^verbatim>\<open>seller.seller_id\<close> if any) and the
  match of \<^verbatim>\<open>"seller_id":"(\d+)"\<close> in \<^verbatim>\<open>__NEXT_DATA__\<close>.  An exception inside the
  callback is swallowed there and gives \<^verbatim>\<open>null\<close>.
\<close>

datatype atlas_data = AtlasAbsent | AtlasNotJson | AtlasParsed "string option"

record dom_state =
  atlas :: atlas_data
  next_data_match :: "string option"

definition pageData :: "dom_state \<Rightarrow> (string \<times> string) option" where
  "pageData page =
     (case atlas page of
        AtlasNotJson \<Rightarrow> None
      | AtlasParsed (Some sid) \<Rightarrow>
          if sid \<noteq> [] then Some (sid, ''atlas-data'')
          else (case next_data_match page of
                  Some m \<Rightarrow> if m \<noteq> [] then Some (m, ''__NEXT_DATA__'') else None
                | None \<Rightarrow> None)
      | _ \<Rightarrow>
          (case next_data_match page of
             Some m \<Rightarrow> if m \<noteq> [] then Some (m, ''__NEXT_DATA__'') else None
           | None \<Rightarrow> None))"

datatype eval_reply = EvalThrows string | EvalReturns dom_state

text \<open>
  One pass of the polling loop (lines 172-214), as the environment presents it:
  whether the page is closed, its URL, what \<^verbatim>\<open>page.evaluate\<close> does, and the
  responses that the network listener sees while the loop awaits the evaluation
  and while it sleeps one second.  The loop runs once per element of the list; the
  deadline has passed when the list is used up.
\<close>

record poll_tick =
  page_closed :: bool
  current_url :: js_url
  evaluate_reply :: eval_reply
  responses_during_evaluate :: "js_url list"
  responses_during_sleep :: "js_url list"

text \<open>The response listener (lines 144-155): it keeps the first identifiers it finds.\<close>

definition onResponse :: "seller_info option \<Rightarrow> js_url \<Rightarrow> seller_info option" where
  "onResponse sellerInfo url =
     (case sellerInfo of
        Some s \<Rightarrow> Some s
      | None \<Rightarrow>
          if includes_str (href url) ''seller-us.tiktok.com'' \<and> includes_str (href url) ''seller_id=''
          then extractSellerIdFromUrl url
          else None)"

definition onResponses :: "seller_info option \<Rightarrow> js_url list \<Rightarrow> seller_info option" where
  "onResponses sellerInfo urls = foldl onResponse sellerInfo urls"

fun pollLoop :: "seller_info option \<Rightarrow> poll_tick list \<Rightarrow> seller_info option" where
  "pollLoop (Some s) rest = Some s"
| "pollLoop None [] = None"
| "pollLoop None (t # rest) =
     (if page_closed t then None
      else
        case (if includes_str (href (current_url t)) ''seller_id=''
              then extractSellerIdFromUrl (current_url t) else None) of
          Some s \<Rightarrow> Some s
        | None \<Rightarrow>
            (case evaluate_reply t of
               EvalThrows e \<Rightarrow>
                 pollLoop (onResponses (onResponses None (responses_during_evaluate t))
                             (responses_during_sleep t)) rest
             | EvalReturns page \<Rightarrow>
                 (case pageData page of
                    Some (sid, src) \<Rightarrow> Some \<lparr>info_sellerId = sid, info_oecSellerId = sid\<rparr>
                  | None \<Rightarrow>
                      pollLoop (onResponses (onResponses None (responses_during_evaluate t))
                                  (responses_during_sleep t)) rest)))"

text \<open>
  The browser phase (lines 129-253).  Every awaited call either returns or throws
  an error with a message (\<open>Some\<close> message, \<open>Inl\<close> message).
\<close>

record browser_env =
  connect_reply :: "string option"
  newPage_reply :: "string option"
  goto_reply :: "string option"
  responses_during_goto :: "js_url list"
  ticks :: "poll_tick list"
  cookies_reply :: "string + cookie list"
  close_reply :: "string option"
  disconnect_reply :: "string option"

definition warning_sign :: string where
  "warning_sign = [CHR 0xE2, CHR 0x9A, CHR 0xA0]"

definition timeout_message :: string where
  "timeout_message = ''Timeout: Could not find seller_id in Network, URL, or Page Content''"

text \<open>The result of the \<^verbatim>\<open>try\<close> block: the exception caught, if any, and the variables of the outer scope.\<close>

record browser_result =
  caught :: "string option"
  got_sellerId :: string
  got_oecSellerId :: string
  got_cookies :: "cookie list"

definition browserPhase :: "browser_env \<Rightarrow> browser_result" where
  "browserPhase b =
     (case connect_reply b of
        Some e \<Rightarrow> \<lparr>caught = Some e, got_sellerId = [], got_oecSellerId = [], got_cookies = []\<rparr>
      | None \<Rightarrow>
     (case newPage_reply b of
        Some e \<Rightarrow> \<lparr>caught = Some e, got_sellerId = [], got_oecSellerId = [], got_cookies = []\<rparr>
      | None \<Rightarrow>
     (case goto_reply b of
        Some e \<Rightarrow> \<lparr>caught = Some e, got_sellerId = [], got_oecSellerId = [], got_cookies = []\<rparr>
      | None \<Rightarrow>
     (case pollLoop (onResponses None (responses_during_goto b)) (ticks b) of
        None \<Rightarrow>
          \<lparr>caught = Some timeout_message, got_sellerId = [], got_oecSellerId = [],
           got_cookies = []\<rparr>
      | Some sellerInfo \<Rightarrow>
     (case cookies_reply b of
        Inl e \<Rightarrow>
          \<lparr>caught = Some e, got_sellerId = info_sellerId sellerInfo,
           got_oecSellerId = info_oecSellerId sellerInfo, got_cookies = []\<rparr>
      | Inr cookies \<Rightarrow>
     (case close_reply b of
        Some e \<Rightarrow>
          \<lparr>caught = Some e, got_sellerId = info_sellerId sellerInfo,
           got_oecSellerId = info_oecSellerId sellerInfo, got_cookies = cookies\<rparr>
      | None \<Rightarrow>
          \<lparr>caught = disconnect_reply b, got_sellerId = info_sellerId sellerInfo,
           got_oecSellerId = info_oecSellerId sellerInfo, got_cookies = cookies\<rparr>))))))"

text \<open>The classification of the caught error (lines 236-248).\<close>

definition lastNetworkError :: "string option \<Rightarrow> string" where
  "lastNetworkError c =
     (case c of
        None \<Rightarrow> []
      | Some errorMsg \<Rightarrow>
          if includes_str errorMsg ''ERR_PROXY_CONNECTION_FAILED''
          then warning_sign @ '' Proxy dead/unavailable''
          else if includes_str errorMsg ''ERR_TIMED_OUT''
          then warning_sign @ '' Network timeout''
          else if includes_str errorMsg ''ERR_CONNECTION_REFUSED''
          then warning_sign @ '' Connection refused''
          else if includes_str errorMsg ''ERR_NAME_NOT_RESOLVED''
          then warning_sign @ '' DNS resolution failed''
          else [])"

text \<open>
  The direct data client (lines 273-382).  A statistic or payment request throws
  (\<open>Inl\<close> message) or answers with a body whose \<^verbatim>\<open>format_with_symbol\<close> field is
  present or not.
\<close>

record TikTokFinanceResult =
  sellerId :: string
  oecSellerId :: string
  summary_onHoldAmount :: string
  summary_sumAmount :: string
  summary_monthly :: "month_entry list"

record fast_env =
  browser :: browser_env
  stop_reply_fast :: stop_reply
  stat_reply :: "string + string option"
  payment_reply :: "string + string option"
  month_reply :: "int option \<Rightarrow> int option \<Rightarrow> http_reply"
  clock_year :: int
  clock_month :: int

definition or_default :: "string option \<Rightarrow> string \<Rightarrow> string" where
  "or_default v d = (case v of Some s \<Rightarrow> if s = [] then d else s | None \<Rightarrow> d)"

definition cookieString :: "cookie list \<Rightarrow> string" where
  "cookieString cookies =
     foldr (\<lambda>c rest. cookie_name c @ ''='' @ cookie_value c @ (if rest = [] then [] else ''; '' @ rest))
       cookies []"

definition fetchTikTokDataFast ::
  "fast_env \<Rightarrow> nat \<Rightarrow> string \<Rightarrow> event list \<times> (string + TikTokFinanceResult)" where
  "fetchTikTokDataFast e debugPort pid =
     (let r = browserPhase (browser e);
          stopped = [BrowserConnect debugPort, CallStop pid (stop_reply_fast e)]
      in if got_sellerId r = [] \<or> length (got_cookies r) = 0
         then (stopped,
               Inl (if lastNetworkError (caught r) \<noteq> [] then lastNetworkError (caught r)
                    else ''Failed to extract seller_id or cookies''))
         else
           let session = StatApi (got_sellerId r) (got_oecSellerId r) (cookieString (got_cookies r)) in
           case stat_reply e of
             Inl m \<Rightarrow> (stopped @ [session], Inl m)
           | Inr stat \<Rightarrow>
               (stopped @ [session, PaymentApi (got_sellerId r) (got_oecSellerId r), MonthlyApi],
                Inr \<lparr>sellerId = got_sellerId r,
                     oecSellerId = got_oecSellerId r,
                     summary_onHoldAmount = or_default stat ''N/A'',
                     summary_sumAmount =
                       (case payment_reply e of
                          Inl m \<Rightarrow> ''N/A''
                        | Inr pay \<Rightarrow> or_default pay ''N/A''),
                     summary_monthly =
                       monthlySeries (month_reply e) (clock_year e) (clock_month e)\<rparr>))"

section \<open>The batch orchestrator (src/src/main.ts, lines 866-1032)\<close>

definition CHUNK_SIZE :: nat where "CHUNK_SIZE = 3"
definition MAX_RETRIES :: nat where "MAX_RETRIES = 1"

record batch_result =
  res_profileId :: string
  res_success :: bool
  res_sellerId :: "string option"
  res_onHoldAmount :: "string option"
  res_sumAmount :: "string option"
  res_monthlyData :: "month_entry list option"
  res_message :: string

definition failure_result :: "string \<Rightarrow> string \<Rightarrow> batch_result" where
  "failure_result pid m =
     \<lparr>res_profileId = pid, res_success = False, res_sellerId = None,
      res_onHoldAmount = None, res_sumAmount = None, res_monthlyData = None, res_message = m\<rparr>"

definition skipped_message :: string where
  "skipped_message = warning_sign @ '' Skipped - Profile in use by another user''"

text \<open>What one attempt needs from the outside.\<close>

record attempt_env =
  start_r :: start_reply
  status_r :: status_reply
  fast :: fast_env
  stop_reply_catch :: stop_reply

text \<open>
  The \<^verbatim>\<open>try\<close> block of \<^verbatim>\<open>processProfile\<close> (lines 890-946): it returns a record
  (\<open>Inr\<close>) or throws (\<open>Inl\<close>, the message of the error).
\<close>

definition tryProfile :: "attempt_env \<Rightarrow> string \<Rightarrow> event list \<times> (string + batch_result)" where
  "tryProfile a pid =
     (case startProfile ''Start failed'' ''Profile conflict (409) - could not get port''
             (start_r a) (status_r a) pid of
        (started, InUse400) \<Rightarrow> (started, Inr (failure_result pid skipped_message))
      | (started, StartThrown m) \<Rightarrow> (started, Inl m)
      | (started, Port port) \<Rightarrow>
          (case fetchTikTokDataFast (fast a) port pid of
             (fetched, Inl m) \<Rightarrow> (started @ [Sleep 3000] @ fetched, Inl m)
           | (fetched, Inr tiktokData) \<Rightarrow>
               (started @ [Sleep 3000] @ fetched,
                Inr \<lparr>res_profileId = pid, res_success = True,
                     res_sellerId = Some (sellerId tiktokData),
                     res_onHoldAmount =
                       Some (if summary_onHoldAmount tiktokData = [] then ''N/A''
                             else summary_onHoldAmount tiktokData),
                     res_sumAmount =
                       Some (if summary_sumAmount tiktokData = [] then ''N/A''
                             else summary_sumAmount tiktokData),
                     res_monthlyData = Some (summary_monthly tiktokData),
                     res_message = ''Data retrieval successful''\<rparr>)))"

text \<open>
  \<^verbatim>\<open>processProfile\<close> with its \<^verbatim>\<open>catch\<close> block (lines 948-966): the stop request,
  the test for an "in use" message, and the retry by a call of itself.  The
  environment of attempt \<open>n\<close> is \<open>env n\<close>.
\<close>

function processProfile ::
  "(nat \<Rightarrow> attempt_env) \<Rightarrow> string \<Rightarrow> nat \<Rightarrow> nat \<Rightarrow> event list \<times> batch_result" where
  "processProfile env pid index retryCount =
     (case snd (tryProfile (env retryCount) pid) of
        Inr r \<Rightarrow> (fst (tryProfile (env retryCount) pid), r)
      | Inl m \<Rightarrow>
          if includes_str m ''Skipped'' \<or> includes_str m ''in use''
          then (fst (tryProfile (env retryCount) pid)
                  @ [CallStop pid (stop_reply_catch (env retryCount))],
                failure_result pid m)
          else if retryCount < MAX_RETRIES
          then (fst (tryProfile (env retryCount) pid)
                  @ [CallStop pid (stop_reply_catch (env retryCount)), Sleep 5000]
                  @ fst (processProfile env pid index (retryCount + 1)),
                snd (processProfile env pid index (retryCount + 1)))
          else (fst (tryProfile (env retryCount) pid)
                  @ [CallStop pid (stop_reply_catch (env retryCount))],
                failure_result pid m))"
  by pat_completeness auto
termination
  by (relation "measure (\<lambda>(env, pid, index, retryCount). MAX_RETRIES - retryCount)") auto

declare processProfile.simps [simp del]

text \<open>
  \<^verbatim>\<open>Promise.all\<close>: the promises settle in some order (\<open>completion\<close>, positions in
  the order of completion); each value is stored at the position of its promise, and
  the result is there once every position is filled.  \<open>None\<close>: it never resolves.
\<close>

definition promise_all :: "'a list \<Rightarrow> nat list \<Rightarrow> 'a list option" where
  "promise_all vals completion =
     those (fold (\<lambda>k slots. if k < length vals then slots[k := Some (vals ! k)] else slots)
              completion (replicate (length vals) None))"

text \<open>
  The loop over the chunks (lines 970-1012).  Job \<open>k\<close> of the list runs in the
  environment \<open>env k\<close>; \<open>completion c\<close> is the order in which the jobs of chunk
  \<open>c\<close> complete.
\<close>

function batchChunks ::
  "(nat \<Rightarrow> nat \<Rightarrow> attempt_env) \<Rightarrow> (nat \<Rightarrow> nat list) \<Rightarrow> string list \<Rightarrow> nat
     \<Rightarrow> batch_result list \<Rightarrow> batch_result list option" where
  "batchChunks env completion profileIds i results =
     (if i < length profileIds
      then
        (case promise_all
                (map (\<lambda>idx. snd (processProfile (env (i + idx))
                                   (take CHUNK_SIZE (drop i profileIds) ! idx) (i + idx) 0))
                   [0..<length (take CHUNK_SIZE (drop i profileIds))])
                (completion (i div CHUNK_SIZE)) of
           None \<Rightarrow> None
         | Some chunkResults \<Rightarrow>
             batchChunks env completion profileIds (i + CHUNK_SIZE) (results @ chunkResults))
      else Some results)"
  by pat_completeness auto
termination
  by (relation "measure (\<lambda>(env, completion, profileIds, i, results). length profileIds - i)")
    (auto simp: CHUNK_SIZE_def)

declare batchChunks.simps [simp del]

definition batchFetchTikTok ::
  "(nat \<Rightarrow> nat \<Rightarrow> attempt_env) \<Rightarrow> (nat \<Rightarrow> nat list) \<Rightarrow> string list
     \<Rightarrow> batch_result list option" where
  "batchFetchTikTok env completion profileIds = batchChunks env completion profileIds 0 []"

section \<open>The run-and-fetch handler (src/src/main.ts, lines 797-861)\<close>

record fetch_response =
  resp_success :: bool
  resp_port :: "nat option"
  resp_tiktokData :: "TikTokFinanceResult option"
  resp_message :: string

definition runAndFetchTikTok :: "attempt_env \<Rightarrow> string \<Rightarrow> event list \<times> fetch_response" where
  "runAndFetchTikTok a pid =
     (case startProfile ''Start failed'' ''Profile conflict (409) - could not get port''
             (start_r a) (status_r a) pid of
        (started, InUse400) \<Rightarrow>
          (started, \<lparr>resp_success = False, resp_port = None, resp_tiktokData = None,
                     resp_message = ''Profile is in use by another user''\<rparr>)
      | (started, StartThrown m) \<Rightarrow>
          (started, \<lparr>resp_success = False, resp_port = None, resp_tiktokData = None,
                     resp_message = m\<rparr>)
      | (started, Port port) \<Rightarrow>
          (case fetchTikTokDataFast (fast a) port pid of
             (fetched, Inl m) \<Rightarrow>
               (started @ [Sleep 3000] @ fetched,
                \<lparr>resp_success = False, resp_port = None, resp_tiktokData = None,
                 resp_message = m\<rparr>)
           | (fetched, Inr tiktokData) \<Rightarrow>
               (started @ [Sleep 3000] @ fetched,
                \<lparr>resp_success = True, resp_port = Some port, resp_tiktokData = Some tiktokData,
                 resp_message = ''Ho'' @ [CHR 0xC3, CHR 0xA0] @ ''n t'' @ [CHR 0xE1, CHR 0xBA, CHR 0xA5]
                                @ ''t! On Hold: '' @ summary_onHoldAmount tiktokData
                                @ '', Paid: '' @ summary_sumAmount tiktokData\<rparr>)))"

section \<open>Started profiles and their stop requests\<close>

text \<open>
  An event with which a job obtains the debug port of a running profile: a start
  request that resolved with code 1 and success, or a status request that gave a
  port.
\<close>

fun obtained_port :: "event \<Rightarrow> string option" where
  "obtained_port (CallStart p (StartResolved code ok port)) =
     (if code = 1 \<and> ok then Some p else None)"
| "obtained_port (CallStatus p (StatusResolved (Some port))) =
     (if port \<noteq> 0 then Some p else None)"
| "obtained_port e = None"

text \<open>A stop request for the profile comes before the job sends another start request for it.\<close>

fun stop_follows :: "string \<Rightarrow> event list \<Rightarrow> bool" where
  "stop_follows p [] = False"
| "stop_follows p (CallStop q r # es) = (q = p \<or> stop_follows p es)"
| "stop_follows p (CallStart q r # es) = (q \<noteq> p \<and> stop_follows p es)"
| "stop_follows p (e # es) = stop_follows p es"

fun stops_cover :: "event list \<Rightarrow> bool" where
  "stops_cover [] = True"
| "stops_cover (e # es) =
     ((case obtained_port e of Some p \<Rightarrow> stop_follows p es | None \<Rightarrow> True) \<and> stops_cover es)"

fun is_stop :: "event \<Rightarrow> bool" where
  "is_stop (CallStop p r) = True"
| "is_stop e = False"

fun is_start :: "event \<Rightarrow> bool" where
  "is_start (CallStart p r) = True"
| "is_start e = False"

text \<open>An attempt's environment with other replies to its two stop requests.\<close>

definition with_stop_replies :: "stop_reply \<Rightarrow> stop_reply \<Rightarrow> attempt_env \<Rightarrow> attempt_env" where
  "with_stop_replies r1 r2 a = a\<lparr>fast := (fast a)\<lparr>stop_reply_fast := r1\<rparr>, stop_reply_catch := r2\<rparr>"

text \<open>
  A failure is transient when its message marks it neither as skipped nor as a
  profile in use: the test of the \<^verbatim>\<open>catch\<close> block (line 954).
\<close>

definition transient :: "string \<Rightarrow> bool" where
  "transient m = (\<not> includes_str m ''Skipped'' \<and> \<not> includes_str m ''in use'')"

text \<open>The start block with the messages of the batch job and of the run-and-fetch handler.\<close>

abbreviation batch_start :: "attempt_env \<Rightarrow> string \<Rightarrow> event list \<times> start_outcome" where
  "batch_start a p \<equiv>
     startProfile ''Start failed'' ''Profile conflict (409) - could not get port''
       (start_r a) (status_r a) p"


text \<open>Every URL the extraction looks at: the responses it sees and the page's own URL.\<close>

definition tick_urls :: "poll_tick \<Rightarrow> js_url list" where
  "tick_urls t = current_url t # responses_during_evaluate t @ responses_during_sleep t"

definition urls_seen :: "browser_env \<Rightarrow> js_url list" where
  "urls_seen b = responses_during_goto b @ concat (map tick_urls (ticks b))"

section \<open>Sample environments\<close>

definition sample_url_both :: js_url where
  "sample_url_both =
     \<lparr>href = ''https://seller-us.tiktok.com/api/v1/pay/x?seller_id=7001&oec_seller_id=9001'',
      searchParams = Some [(''seller_id'', ''7001''), (''oec_seller_id'', ''9001'')]\<rparr>"

definition sample_url_plain :: js_url where
  "sample_url_plain =
     \<lparr>href = ''https://seller-us.tiktok.com/finance/bills?lng=en'',
      searchParams = Some [(''lng'', ''en'')]\<rparr>"

definition tick_nothing :: poll_tick where
  "tick_nothing =
     \<lparr>page_closed = False, current_url = sample_url_plain,
      evaluate_reply = EvalReturns \<lparr>atlas = AtlasAbsent, next_data_match = None\<rparr>,
      responses_during_evaluate = [sample_url_plain], responses_during_sleep = []\<rparr>"

definition tick_page_seller_id :: poll_tick where
  "tick_page_seller_id =
     \<lparr>page_closed = False, current_url = sample_url_plain,
      evaluate_reply = EvalReturns \<lparr>atlas = AtlasParsed (Some ''7001''), next_data_match = None\<rparr>,
      responses_during_evaluate = [], responses_during_sleep = []\<rparr>"

definition browser_with :: "poll_tick list \<Rightarrow> browser_env" where
  "browser_with ts =
     \<lparr>connect_reply = None, newPage_reply = None, goto_reply = None,
      responses_during_goto = [sample_url_plain], ticks = ts,
      cookies_reply = Inr [\<lparr>cookie_name = ''sid'', cookie_value = ''abc''\<rparr>],
      close_reply = None, disconnect_reply = None\<rparr>"

definition fast_with :: "poll_tick list \<Rightarrow> fast_env" where
  "fast_with ts =
     \<lparr>browser = browser_with ts, stop_reply_fast = StopRejected ''socket hang up'',
      stat_reply = Inr (Some ''$12.50''), payment_reply = Inl ''Request failed with status code 500'',
      month_reply = (\<lambda>lower upper. HttpBody None), clock_year = 2026, clock_month = 0\<rparr>"

definition attempt_with :: "start_reply \<Rightarrow> poll_tick list \<Rightarrow> attempt_env" where
  "attempt_with sr ts =
     \<lparr>start_r = sr, status_r = StatusResolved (Some 9222), fast = fast_with ts,
      stop_reply_catch = StopRejected ''socket hang up''\<rparr>"

definition env_500_then_400 :: "nat \<Rightarrow> attempt_env" where
  "env_500_then_400 n =
     (if n = 0 then attempt_with (StartRejected (Some 500) ''Request failed with status code 500'') []
      else attempt_with (StartRejected (Some 400) ''Request failed with status code 400'') [])"

definition attempt_finding_nothing :: attempt_env where
  "attempt_finding_nothing = attempt_with (StartResolved 1 True 9222) [tick_nothing, tick_nothing]"

definition attempt_page_seller_id :: attempt_env where
  "attempt_page_seller_id =
     attempt_with (StartResolved 1 True 9222) [tick_nothing, tick_page_seller_id]"

definition tick_url_both :: poll_tick where
  "tick_url_both =
     \<lparr>page_closed = False, current_url = sample_url_both,
      evaluate_reply = EvalThrows ''Execution context was destroyed'',
      responses_during_evaluate = [], responses_during_sleep = []\<rparr>"

definition attempt_url_both :: attempt_env where
  "attempt_url_both = attempt_with (StartResolved 1 True 9222) [tick_nothing, tick_url_both]"

definition sample_completion :: "nat \<Rightarrow> nat list" where
  "sample_completion c = (if c = 0 then [2, 0, 1] else [0])"

definition sample_batch_env :: "nat \<Rightarrow> nat \<Rightarrow> attempt_env" where
  "sample_batch_env k n =
     (if k = 1 then attempt_page_seller_id
      else attempt_with (StartRejected (Some 400) ''Request failed with status code 400'') [])"

section \<open>The login automaton: loginTikTokSeller (src/unnamed/part_000, lines 99-360)\<close>

record LoginCredentials =
  cred_email :: string
  cred_password :: string
  cred_twoFactorSecret :: "string option"

record LoginResult =
  login_success :: bool
  login_message :: string
  requires2FA :: "bool option"

text \<open>
  What a selector probe of the submit loop (lines 201-213) does: \<^verbatim>\<open>page.$\<close> throws,
  finds nothing, or finds a button whose click succeeds or throws.
\<close>

datatype button_probe = ProbeThrows | ProbeNone | ProbeFound bool

text \<open>
  The browser and the TOTP service as the automaton meets them.  An awaited call
  that may throw is given by the message of its exception, if it throws
  (\<open>Some\<close> message, \<open>Inl\<close> message); a wait with a timeout by whether the awaited
  thing appears.
\<close>

record login_env =
  l_connect :: "string option"
  l_pages :: "string + nat"
  l_newPage :: "string option"
  l_goto :: "string option"
  url_after_navigate :: string
  email_input_appears :: bool
  url_after_form_wait :: string
  l_clear_inputs :: "string option"
  l_type_email :: "string option"
  l_type_password :: "string option"
  login_buttons :: "button_probe list"
  l_press_enter :: "string option"
  two_factor_appears :: bool
  totp_reply :: "string + string option"
  l_enter_code :: "string option"
  redirected :: bool
  url_after_code :: string
  final_url :: string
  error_element :: "string + string option"
  l_disconnect :: "string option"

text \<open>\<^verbatim>\<open>get2FACode\<close> (lines 66-81): the token of the reply, or null.\<close>

definition get2FACode :: "string + string option \<Rightarrow> string option" where
  "get2FACode reply =
     (case reply of
        Inl e \<Rightarrow> None
      | Inr None \<Rightarrow> None
      | Inr (Some code) \<Rightarrow> if code \<noteq> [] then Some code else None)"

text \<open>\<^verbatim>\<open>await browser.disconnect(); return result\<close> inside the \<^verbatim>\<open>try\<close> block.\<close>

definition disconnect_return :: "login_env \<Rightarrow> LoginResult \<Rightarrow> string + LoginResult" where
  "disconnect_return e r = (case l_disconnect e of Some m \<Rightarrow> Inl m | None \<Rightarrow> Inr r)"

text \<open>
  The three parts of the \<^verbatim>\<open>try\<close> block.  The first (lines 109-156) ends with an
  early return, an exception, or the login form on screen.
\<close>

datatype form_stage = FormReturned LoginResult | FormThrew string | FormVisible

definition reachForm :: "login_env \<Rightarrow> form_stage" where
  "reachForm e =
     (case l_connect e of
        Some m \<Rightarrow> FormThrew m
      | None \<Rightarrow>
     (case l_pages e of
        Inl m \<Rightarrow> FormThrew m
      | Inr n \<Rightarrow>
     (case (if n > 0 then None else l_newPage e) of
        Some m \<Rightarrow> FormThrew m
      | None \<Rightarrow>
     (case l_goto e of
        Some m \<Rightarrow> FormThrew m
      | None \<Rightarrow>
          if includes_str (url_after_navigate e) ''homepage''
             \<or> includes_str (url_after_navigate e) ''dashboard''
             \<or> (includes_str (url_after_navigate e) ''seller-us.tiktok.com''
                 \<and> includes_str (url_after_navigate e) ''setup='')
          then (case disconnect_return e
                       \<lparr>login_success = True, login_message = ''Already logged in!'',
                        requires2FA = None\<rparr> of
                  Inl m \<Rightarrow> FormThrew m
                | Inr r \<Rightarrow> FormReturned r)
          else if email_input_appears e then FormVisible
          else if includes_str (url_after_form_wait e) ''homepage''
                  \<or> includes_str (url_after_form_wait e) ''dashboard''
                  \<or> includes_str (url_after_form_wait e) ''setup=''
          then (case disconnect_return e
                       \<lparr>login_success = True, login_message = ''Already logged in!'',
                        requires2FA = None\<rparr> of
                  Inl m \<Rightarrow> FormThrew m
                | Inr r \<Rightarrow> FormReturned r)
          else FormThrew ''Login form not found and not logged in''))))"

text \<open>The submit loop: the first probe that finds a button and clicks it ends the loop.\<close>

fun clickLoginButton :: "button_probe list \<Rightarrow> bool" where
  "clickLoginButton [] = False"
| "clickLoginButton (ProbeFound True # rest) = True"
| "clickLoginButton (probe # rest) = clickLoginButton rest"

text \<open>
  The second part (lines 158-219): clearing, typing and submitting; \<open>Some\<close> message
  when one of the calls throws.
\<close>

definition fillAndSubmit :: "login_env \<Rightarrow> string option" where
  "fillAndSubmit e =
     (case l_clear_inputs e of
        Some m \<Rightarrow> Some m
      | None \<Rightarrow>
     (case l_type_email e of
        Some m \<Rightarrow> Some m
      | None \<Rightarrow>
     (case l_type_password e of
        Some m \<Rightarrow> Some m
      | None \<Rightarrow>
          if clickLoginButton (login_buttons e) then None else l_press_enter e)))"

text \<open>
  The code entry (lines 254-313): the inner \<^verbatim>\<open>try\<close> with its own \<^verbatim>\<open>catch\<close>, which
  disconnects and returns a failure.  The wait for the redirect has a \<^verbatim>\<open>try\<close> of its
  own, whose \<^verbatim>\<open>catch\<close> only logs: after it the location is read again.
\<close>

definition enterTwoFactorCode :: "login_env \<Rightarrow> string + LoginResult" where
  "enterTwoFactorCode e =
     (case (case l_enter_code e of
              Some m \<Rightarrow> Inl m
            | None \<Rightarrow>
                (case (if redirected e
                       then disconnect_return e
                              \<lparr>login_success = True,
                               login_message = ''Login successful with 2FA!'',
                               requires2FA = None\<rparr>
                       else Inl ''Redirect timeout'') of
                   Inr r \<Rightarrow> Inr r
                 | Inl waited \<Rightarrow>
                     if includes_str (url_after_code e) ''homepage''
                        \<or> includes_str (url_after_code e) ''dashboard''
                     then disconnect_return e
                            \<lparr>login_success = True,
                             login_message = ''Login successful with 2FA!'',
                             requires2FA = None\<rparr>
                     else disconnect_return e
                            \<lparr>login_success = True,
                             login_message = ''2FA submitted - verifying in browser...'',
                             requires2FA = Some True\<rparr>)) of
        Inr r \<Rightarrow> Inr r
      | Inl m \<Rightarrow>
          disconnect_return e
            \<lparr>login_success = False, login_message = ''2FA error: '' @ m, requires2FA = None\<rparr>)"

text \<open>The third part (lines 221-353): the two-factor form, or the final location.\<close>

definition afterSubmit :: "login_env \<Rightarrow> LoginCredentials \<Rightarrow> string + LoginResult" where
  "afterSubmit e credentials =
     (if two_factor_appears e
      then
        (case (case cred_twoFactorSecret credentials of
                 None \<Rightarrow> None
               | Some secret \<Rightarrow> if secret \<noteq> [] then get2FACode (totp_reply e) else None) of
           Some code \<Rightarrow> enterTwoFactorCode e
         | None \<Rightarrow>
             disconnect_return e
               \<lparr>login_success = True,
                login_message = ''2FA required - please enter code manually'',
                requires2FA = Some True\<rparr>)
      else if includes_str (final_url e) ''homepage'' \<or> includes_str (final_url e) ''dashboard''
              \<or> includes_str (final_url e) ''seller-us.tiktok.com/homepage''
      then disconnect_return e
             \<lparr>login_success = True, login_message = ''Login successful!'', requires2FA = None\<rparr>
      else if includes_str (final_url e) ''login''
      then (case error_element e of
              Inl m \<Rightarrow> Inl m
            | Inr errorMsg \<Rightarrow>
                disconnect_return e
                  (case errorMsg of
                     Some t \<Rightarrow>
                       if t \<noteq> []
                       then \<lparr>login_success = False, login_message = ''Login failed: '' @ t,
                             requires2FA = None\<rparr>
                       else \<lparr>login_success = False,
                             login_message = ''Login failed - still on login page'',
                             requires2FA = None\<rparr>
                   | None \<Rightarrow>
                       \<lparr>login_success = False,
                        login_message = ''Login failed - still on login page'',
                        requires2FA = None\<rparr>))
      else disconnect_return e
             \<lparr>login_success = True,
              login_message = ''Login submitted - check browser for result'',
              requires2FA = None\<rparr>)"

definition loginFlow :: "login_env \<Rightarrow> LoginCredentials \<Rightarrow> string + LoginResult" where
  "loginFlow e credentials =
     (case reachForm e of
        FormThrew m \<Rightarrow> Inl m
      | FormReturned r \<Rightarrow> Inr r
      | FormVisible \<Rightarrow>
          (case fillAndSubmit e of
             Some m \<Rightarrow> Inl m
           | None \<Rightarrow> afterSubmit e credentials))"

text \<open>The function with its outer \<^verbatim>\<open>catch\<close> (lines 355-359).\<close>

definition loginTikTokSeller :: "login_env \<Rightarrow> LoginCredentials \<Rightarrow> LoginResult" where
  "loginTikTokSeller e credentials =
     (case loginFlow e credentials of
        Inr r \<Rightarrow> r
      | Inl m \<Rightarrow> \<lparr>login_success = False, login_message = m, requires2FA = None\<rparr>)"

text \<open>A secret is configured when the credentials carry a non-empty one.\<close>

definition secret_configured :: "LoginCredentials \<Rightarrow> bool" where
  "secret_configured credentials =
     (case cred_twoFactorSecret credentials of Some secret \<Rightarrow> secret \<noteq> [] | None \<Rightarrow> False)"

section \<open>The login handler (src/src/main.ts, lines 591-683)\<close>

record login_handler_env =
  h_start :: start_reply
  h_status :: status_reply
  h_login :: login_env

text \<open>
  The handler reads the credential store, starts the profile, takes a window
  position, logs in and releases the position; it returns its trace, the set of
  window positions and the result.
\<close>

definition loginTikTokHandler ::
  "login_handler_env \<Rightarrow> ProfileCredentials list \<Rightarrow> nat set \<Rightarrow> string \<Rightarrow> string option
     \<Rightarrow> event list \<times> nat set \<times> LoginResult" where
  "loginTikTokHandler h sessionCredentials usedWindowPositions pid pname =
     (case (case (case pname of
                    Some n \<Rightarrow>
                      if n \<noteq> [] then getCredentialsByProfileName sessionCredentials n else None
                  | None \<Rightarrow> None) of
              Some c \<Rightarrow> Some c
            | None \<Rightarrow> getCredentialsByProfileId sessionCredentials pid) of
        None \<Rightarrow>
          ([], usedWindowPositions,
           \<lparr>login_success = False,
            login_message = ''Missing credentials for profile ''
              @ (case pname of Some n \<Rightarrow> if n \<noteq> [] then n else pid | None \<Rightarrow> pid)
              @ ''. Please upload the Excel file containing this profile!'',
            requires2FA = None\<rparr>)
      | Some credentials \<Rightarrow>
          (case startProfile ''Failed to start profile'' ''Profile conflict - could not get port''
                  (h_start h) (h_status h) pid of
             (started, InUse400) \<Rightarrow>
               (started, usedWindowPositions,
                \<lparr>login_success = False, login_message = ''Profile is in use by another user'',
                 requires2FA = None\<rparr>)
           | (started, StartThrown m) \<Rightarrow>
               (started, usedWindowPositions,
                \<lparr>login_success = False, login_message = m, requires2FA = None\<rparr>)
           | (started, Port port) \<Rightarrow>
               (case getNextWindowPosition usedWindowPositions of
                  (windowIndex, taken) \<Rightarrow>
                    (started @ [Sleep 3000, BrowserConnect port],
                     releaseWindowPosition windowIndex taken,
                     loginTikTokSeller (h_login h)
                       \<lparr>cred_email = email credentials,
                        cred_password = password credentials,
                        cred_twoFactorSecret = twoFactorSecret credentials\<rparr>))))"

section \<open>Sample login environments\<close>

definition login_until_two_factor :: login_env where
  "login_until_two_factor =
     \<lparr>l_connect = None, l_pages = Inr 1, l_newPage = None, l_goto = None,
      url_after_navigate = ''https://seller-us.tiktok.com/account/login'',
      email_input_appears = True,
      url_after_form_wait = ''https://seller-us.tiktok.com/account/login'',
      l_clear_inputs = None, l_type_email = None, l_type_password = None,
      login_buttons = [ProbeNone, ProbeThrows, ProbeFound True, ProbeNone],
      l_press_enter = None,
      two_factor_appears = True,
      totp_reply = Inl ''timeout of 10000ms exceeded'',
      l_enter_code = None, redirected = False,
      url_after_code = ''https://seller-us.tiktok.com/account/login'',
      final_url = ''https://seller-us.tiktok.com/account/login'',
      error_element = Inr None,
      l_disconnect = None\<rparr>"

definition login_already_in :: login_env where
  "login_already_in =
     login_until_two_factor\<lparr>url_after_navigate := ''https://seller-us.tiktok.com/homepage''\<rparr>"


definition credentials_without_secret :: LoginCredentials where
  "credentials_without_secret =
     \<lparr>cred_email = ''a@x.com'', cred_password = ''pw1'', cred_twoFactorSecret = None\<rparr>"

definition handler_already_in :: login_handler_env where
  "handler_already_in =
     \<lparr>h_start = StartResolved 1 True 9222, h_status = StatusResolved None,
      h_login = login_already_in\<rparr>"

section \<open>JavaScript strings: proofs\<close>

subsection \<open>Trimmed strings\<close>

lemma dropWhile_id_hd: "xs = [] \<or> \<not> P (hd xs) \<Longrightarrow> dropWhile P xs = xs"
  by (cases xs) auto

lemma trimmed_trim_id: "trimmed s \<Longrightarrow> trim s = s"
proof -
  assume t: "trimmed s"
  then have 1: "dropWhile is_space s = s"
    by (intro dropWhile_id_hd) (auto simp: trimmed_def)
  have "rev s = [] \<or> \<not> is_space (hd (rev s))"
    using t by (cases "s = []") (auto simp: trimmed_def hd_rev)
  then have 2: "dropWhile is_space (rev s) = rev s"
    by (rule dropWhile_id_hd)
  show ?thesis by (simp add: trim_def 1 2)
qed

lemma trimmed_trim: "trimmed (trim s)"
proof -
  let ?u = "dropWhile is_space s"
  let ?v = "dropWhile is_space (rev ?u)"
  have tv: "trim s = rev ?v" by (simp add: trim_def)
  show ?thesis
  proof (cases "?v = []")
    case True
    then show ?thesis by (simp add: tv trimmed_def)
  next
    case False
    then have lastok: "\<not> is_space (hd ?v)" by (rule hd_dropWhile)
    have "rev ?u = takeWhile is_space (rev ?u) @ ?v" by simp
    then have "?u = rev ?v @ rev (takeWhile is_space (rev ?u))"
      by (metis rev_append rev_rev_ident)
    with False have hdeq: "hd ?u = hd (rev ?v)"
      by (metis hd_append2 rev_is_Nil_conv)
    have "?u \<noteq> []"
    proof
      assume u: "?u = []"
      have "?v = []" unfolding u by simp
      with False show False by blast
    qed
    then have "\<not> is_space (hd ?u)" by (rule hd_dropWhile)
    with hdeq lastok False show ?thesis
      by (simp add: tv trimmed_def last_rev)
  qed
qed

lemma trim_idem: "trim (trim s) = trim s"
  by (rule trimmed_trim_id) (rule trimmed_trim)






section \<open>Window slot allocator: proofs\<close>

subsection \<open>The scan\<close>

lemma scan_all_used:
  "{i..<MAX_WINDOWS} \<subseteq> u \<Longrightarrow> scanWindowPositions i u = (0, u)"
proof (induction i u rule: scanWindowPositions.induct)
  case (1 i u)
  show ?case
  proof (cases "i < MAX_WINDOWS")
    case True
    with "1.prems" have "i \<in> u" by auto
    moreover from "1.prems" have "{i + 1..<MAX_WINDOWS} \<subseteq> u" by auto
    ultimately show ?thesis
      using True "1.IH" by (subst scanWindowPositions.simps) simp
  next
    case False
    then show ?thesis by (subst scanWindowPositions.simps) simp
  qed
qed

lemma scan_finds_lowest:
  "k < MAX_WINDOWS \<Longrightarrow> i \<le> k \<Longrightarrow> k \<notin> u \<Longrightarrow>
   \<exists>j. scanWindowPositions i u = (j, insert j u) \<and> i \<le> j \<and> j \<le> k \<and> j \<notin> u
       \<and> (\<forall>m. i \<le> m \<and> m < j \<longrightarrow> m \<in> u)"
proof (induction i u rule: scanWindowPositions.induct)
  case (1 i u)
  from "1.prems" have lt: "i < MAX_WINDOWS" by simp
  show ?case
  proof (cases "i \<in> u")
    case False
    with lt "1.prems" show ?thesis
      by (subst scanWindowPositions.simps) auto
  next
    case True
    with "1.prems" have "i + 1 \<le> k" by (cases "i = k") auto
    with "1.IH" [OF lt] True "1.prems"
    obtain j where j: "scanWindowPositions (i + 1) u = (j, insert j u)"
      "i + 1 \<le> j" "j \<le> k" "j \<notin> u" "\<forall>m. i + 1 \<le> m \<and> m < j \<longrightarrow> m \<in> u"
      by auto
    have "\<forall>m. i \<le> m \<and> m < j \<longrightarrow> m \<in> u"
    proof (intro allI impI)
      fix m assume "i \<le> m \<and> m < j"
      then show "m \<in> u" using True j(5) by (cases "m = i") auto
    qed
    with j lt True show ?thesis
      by (subst scanWindowPositions.simps) auto
  qed
qed

lemma acquire_lowest_free:
  assumes "k < MAX_WINDOWS" "k \<notin> u"
  shows "\<exists>j. getNextWindowPosition u = (j, insert j u) \<and> j \<le> k \<and> j \<notin> u
             \<and> (\<forall>m<j. m \<in> u)"
  using scan_finds_lowest [OF assms(1) _ assms(2), of 0]
  by (auto simp: getNextWindowPosition_def)

lemma free_slot_exists:
  assumes "finite u" "card u < MAX_WINDOWS"
  shows "\<exists>k<MAX_WINDOWS. k \<notin> u"
proof (rule ccontr)
  assume "\<not> (\<exists>k<MAX_WINDOWS. k \<notin> u)"
  then have "{0..<MAX_WINDOWS} \<subseteq> u" by auto
  then have "card {0..<MAX_WINDOWS} \<le> card u" using assms(1) by (rule card_mono [rotated])
  with assms(2) show False by simp
qed

lemma alloc_inv_step:
  assumes "alloc_inv s" "length (held (alloc_step s x)) \<le> MAX_WINDOWS"
  shows "alloc_inv (alloc_step s x)"
proof (cases x)
  case Acquire
  from assms(1) have d: "distinct (held s)" and e: "set (held s) = used s"
    and b: "used s \<subseteq> {0..<MAX_WINDOWS}"
    by (auto simp: alloc_inv_def)
  from assms(2) Acquire have "length (held s) < MAX_WINDOWS"
    by (auto split: prod.splits)
  moreover have "finite (set (held s))" by simp
  ultimately have "card (used s) < MAX_WINDOWS" "finite (used s)"
    using distinct_card [OF d] e by auto
  then obtain k where "k < MAX_WINDOWS" "k \<notin> used s"
    using free_slot_exists by blast
  from acquire_lowest_free [OF this]
  obtain j where j: "getNextWindowPosition (used s) = (j, insert j (used s))"
    "j \<le> k" "j \<notin> used s" by blast
  with \<open>k < MAX_WINDOWS\<close> d e b Acquire show ?thesis
    by (auto simp: alloc_inv_def)
next
  case (Release i)
  with assms(1) show ?thesis
    by (auto simp: alloc_inv_def releaseWindowPosition_def)
qed

lemma alloc_inv_run:
  "alloc_inv s \<Longrightarrow> within_capacity s ops \<Longrightarrow> alloc_inv (alloc_run s ops)"
  by (induction ops arbitrary: s) (auto intro: alloc_inv_step)

lemma alloc_inv_init: "alloc_inv alloc_init"
  by (simp add: alloc_inv_def alloc_init_def)

text \<open>
  C7. Window slot allocator with \<open>MAX_WINDOWS = 5\<close>.  After every sequence of
  acquire/release operations that never holds more than \<open>MAX_WINDOWS\<close> acquisitions
  at once, no index is held twice and the held indices are exactly the set of the
  code; a further acquire, while fewer than \<open>MAX_WINDOWS\<close> are held, returns the
  lowest index of \<open>[0, MAX_WINDOWS)\<close> that is not in use, which nobody holds, and
  marks it used.  When all indices are taken, acquire returns 0 and leaves the set
  as it is.  Release is idempotent, and releasing an index that is not in the set
  changes nothing.
\<close>

theorem window_slot_allocator:
  "(within_capacity alloc_init ops \<longrightarrow>
      distinct (held (alloc_run alloc_init ops))
      \<and> set (held (alloc_run alloc_init ops)) = used (alloc_run alloc_init ops)
      \<and> (length (held (alloc_run alloc_init ops)) < MAX_WINDOWS \<longrightarrow>
           (\<exists>j. getNextWindowPosition (used (alloc_run alloc_init ops))
                   = (j, insert j (used (alloc_run alloc_init ops)))
                \<and> j < MAX_WINDOWS
                \<and> j \<notin> set (held (alloc_run alloc_init ops))
                \<and> (\<forall>m<j. m \<in> used (alloc_run alloc_init ops)))))
   \<and> ({0..<MAX_WINDOWS} \<subseteq> u \<longrightarrow> getNextWindowPosition u = (0, u))
   \<and> releaseWindowPosition i (releaseWindowPosition i u) = releaseWindowPosition i u
   \<and> (i \<notin> u \<longrightarrow> releaseWindowPosition i u = u)"
proof (intro conjI impI)
  assume cap: "within_capacity alloc_init ops"
  let ?s = "alloc_run alloc_init ops"
  have inv: "alloc_inv ?s"
    using alloc_inv_run [OF alloc_inv_init cap] .
  then show "distinct (held ?s)" and eq: "set (held ?s) = used ?s"
    by (auto simp: alloc_inv_def)
  assume "length (held ?s) < MAX_WINDOWS"
  moreover from inv have "card (used ?s) = length (held ?s)"
    using distinct_card [of "held ?s"] by (auto simp: alloc_inv_def)
  moreover from inv have "finite (set (held ?s))" by simp
  ultimately have "finite (used ?s)" "card (used ?s) < MAX_WINDOWS"
    using eq by auto
  then obtain k where k: "k < MAX_WINDOWS" "k \<notin> used ?s"
    using free_slot_exists by blast
  from acquire_lowest_free [OF k] eq k(1)
  show "\<exists>j. getNextWindowPosition (used ?s) = (j, insert j (used ?s))
          \<and> j < MAX_WINDOWS \<and> j \<notin> set (held ?s) \<and> (\<forall>m<j. m \<in> used ?s)"
    by auto
next
  assume "{0..<MAX_WINDOWS} \<subseteq> u"
  then show "getNextWindowPosition u = (0, u)"
    by (simp add: getNextWindowPosition_def scan_all_used)
next
  show "releaseWindowPosition i (releaseWindowPosition i u) = releaseWindowPosition i u"
    by (auto simp: releaseWindowPosition_def)
next
  assume "i \<notin> u"
  then show "releaseWindowPosition i u = u"
    by (simp add: releaseWindowPosition_def)
qed

text \<open>The theorem after two acquisitions and the release of index 0, and at the full set.\<close>

theorem window_slot_allocator_witness:
  "within_capacity alloc_init [Acquire, Acquire, Release 0]
   \<and> distinct (held (alloc_run alloc_init [Acquire, Acquire, Release 0]))
   \<and> set (held (alloc_run alloc_init [Acquire, Acquire, Release 0]))
       = used (alloc_run alloc_init [Acquire, Acquire, Release 0])
   \<and> length (held (alloc_run alloc_init [Acquire, Acquire, Release 0])) < MAX_WINDOWS
   \<and> (\<exists>j. getNextWindowPosition (used (alloc_run alloc_init [Acquire, Acquire, Release 0]))
             = (j, insert j (used (alloc_run alloc_init [Acquire, Acquire, Release 0])))
          \<and> j < MAX_WINDOWS
          \<and> j \<notin> set (held (alloc_run alloc_init [Acquire, Acquire, Release 0]))
          \<and> (\<forall>m<j. m \<in> used (alloc_run alloc_init [Acquire, Acquire, Release 0])))
   \<and> {0..<MAX_WINDOWS} \<subseteq> {0, 1, 2, 3, 4}
   \<and> getNextWindowPosition {0, 1, 2, 3, 4} = (0, {0, 1, 2, 3, 4})
   \<and> releaseWindowPosition 7 (releaseWindowPosition 7 {0, 1, 2, 3, 4})
       = releaseWindowPosition 7 {0, 1, 2, 3, 4}
   \<and> 7 \<notin> {0, 1, 2, 3, 4::nat}
   \<and> releaseWindowPosition 7 {0, 1, 2, 3, 4} = {0, 1, 2, 3, 4}"
proof -
  have run: "alloc_run alloc_init [Acquire, Acquire, Release 0] = \<lparr>used = {1}, held = [1]\<rparr>"
    by (simp add: alloc_init_def getNextWindowPosition_def scanWindowPositions.simps
        MAX_WINDOWS_def releaseWindowPosition_def insert_Diff_if)
  have cap: "within_capacity alloc_init [Acquire, Acquire, Release 0]"
    by (simp add: alloc_init_def getNextWindowPosition_def scanWindowPositions.simps
        MAX_WINDOWS_def releaseWindowPosition_def)
  have len: "length (held (alloc_run alloc_init [Acquire, Acquire, Release 0])) < MAX_WINDOWS"
    unfolding run by (simp add: MAX_WINDOWS_def)
  have sub: "{0..<MAX_WINDOWS} \<subseteq> {0, 1, 2, 3, 4}"
    by (auto simp: MAX_WINDOWS_def)
  have notin: "7 \<notin> {0, 1, 2, 3, 4::nat}" by simp
  show ?thesis
    using window_slot_allocator [of "[Acquire, Acquire, Release 0]" "{0, 1, 2, 3, 4}" 7]
      cap len sub notin
    by blast
qed

section \<open>Credential store: proofs\<close>

subsection \<open>What a load stores\<close>



lemma parseExcelWorkbook_success:
  "success (fst (parseExcelWorkbook s0 rs)) \<Longrightarrow>
   snd (parseExcelWorkbook s0 rs) = collectProfiles rs \<and> collectProfiles rs \<noteq> []"
  by (auto simp: parseExcelWorkbook_def Let_def split: if_splits)



lemma collectProfiles_empty_iff:
  "collectProfiles rs = [] \<longleftrightarrow> (\<forall>r\<in>set rs. parseRow r = None)"
  by (induction rs) (auto split: option.splits)





lemma parseExcelWorkbook_failed:
  "\<not> success (fst (parseExcelWorkbook s rs)) \<Longrightarrow> snd (parseExcelWorkbook s rs) = s"
  by (auto simp: parseExcelWorkbook_def Let_def)

lemma parseExcelWorkbook_success_iff:
  "success (fst (parseExcelWorkbook s rs)) \<longleftrightarrow> (\<exists>r\<in>set rs. parseRow r \<noteq> None)"
proof (cases "rs = []")
  case True
  then show ?thesis by (simp add: parseExcelWorkbook_def)
next
  case False
  then show ?thesis
    using collectProfiles_empty_iff [of rs]
    by (auto simp: parseExcelWorkbook_def Let_def)
qed

text \<open>
  C10.  A load that fails leaves \<^verbatim>\<open>sessionCredentials\<close> as it was, so every lookup
  by ID or by name answers as before; this holds for both loaders.  The load fails
  when the XLSX library throws, when the sheet has no rows, and when no row has a
  truthy id, e-mail and password.  The store is replaced only by a load that
  succeeds, and then by the rows parsed from a sheet with at least one valid row.
\<close>

theorem failed_load_keeps_store:
  "(\<not> success (fst (loadCredentialsFromExcelBuffer s wb)) \<longrightarrow>
       snd (loadCredentialsFromExcelBuffer s wb) = s
       \<and> (\<forall>q. getCredentialsByProfileId (snd (loadCredentialsFromExcelBuffer s wb)) q
                = getCredentialsByProfileId s q)
       \<and> (\<forall>q. getCredentialsByProfileName (snd (loadCredentialsFromExcelBuffer s wb)) q
                = getCredentialsByProfileName s q))
   \<and> (\<not> success (fst (loadCredentialsFromExcel s wb)) \<longrightarrow>
       snd (loadCredentialsFromExcel s wb) = s
       \<and> (\<forall>q. getCredentialsByProfileId (snd (loadCredentialsFromExcel s wb)) q
                = getCredentialsByProfileId s q)
       \<and> (\<forall>q. getCredentialsByProfileName (snd (loadCredentialsFromExcel s wb)) q
                = getCredentialsByProfileName s q))
   \<and> \<not> success (fst (loadCredentialsFromExcelBuffer s (Inl msg)))
   \<and> \<not> success (fst (loadCredentialsFromExcel s (Inl msg)))
   \<and> \<not> success (fst (loadCredentialsFromExcelBuffer s (Inr [])))
   \<and> \<not> success (fst (loadCredentialsFromExcel s (Inr [])))
   \<and> ((\<forall>r\<in>set rawData. parseRow r = None) \<longrightarrow>
         \<not> success (fst (loadCredentialsFromExcelBuffer s (Inr rawData)))
         \<and> \<not> success (fst (loadCredentialsFromExcel s (Inr rawData))))
   \<and> (success (fst (loadCredentialsFromExcelBuffer s wb)) \<longrightarrow>
         (\<exists>rs. wb = Inr rs \<and> (\<exists>r\<in>set rs. parseRow r \<noteq> None)
               \<and> snd (loadCredentialsFromExcelBuffer s wb) = collectProfiles rs))
   \<and> (success (fst (loadCredentialsFromExcel s wb)) \<longrightarrow>
         (\<exists>rs. wb = Inr rs \<and> (\<exists>r\<in>set rs. parseRow r \<noteq> None)
               \<and> snd (loadCredentialsFromExcel s wb) = collectProfiles rs))"
proof -
  have b: "snd (loadCredentialsFromExcelBuffer s wb) = s"
    if "\<not> success (fst (loadCredentialsFromExcelBuffer s wb))"
    using that parseExcelWorkbook_failed
    by (cases wb) (auto simp: loadCredentialsFromExcelBuffer_def)
  have f: "snd (loadCredentialsFromExcel s wb) = s"
    if "\<not> success (fst (loadCredentialsFromExcel s wb))"
    using that parseExcelWorkbook_failed
    by (cases wb) (auto simp: loadCredentialsFromExcel_def)
  have thrown: "\<not> success (fst (loadCredentialsFromExcelBuffer s (Inl msg)))"
    "\<not> success (fst (loadCredentialsFromExcel s (Inl msg)))"
    by (simp_all add: loadCredentialsFromExcelBuffer_def loadCredentialsFromExcel_def)
  have empty: "\<not> success (fst (loadCredentialsFromExcelBuffer s (Inr [])))"
    "\<not> success (fst (loadCredentialsFromExcel s (Inr [])))"
    by (simp_all add: loadCredentialsFromExcelBuffer_def loadCredentialsFromExcel_def
        parseExcelWorkbook_def)
  have novalid: "\<not> success (fst (loadCredentialsFromExcelBuffer s (Inr rawData)))
      \<and> \<not> success (fst (loadCredentialsFromExcel s (Inr rawData)))"
    if "\<forall>r\<in>set rawData. parseRow r = None"
    using that
    by (simp add: loadCredentialsFromExcelBuffer_def loadCredentialsFromExcel_def
        parseExcelWorkbook_success_iff)
  have okb: "\<exists>rs. wb = Inr rs \<and> (\<exists>r\<in>set rs. parseRow r \<noteq> None)
               \<and> snd (loadCredentialsFromExcelBuffer s wb) = collectProfiles rs"
    if "success (fst (loadCredentialsFromExcelBuffer s wb))"
    using that parseExcelWorkbook_success parseExcelWorkbook_success_iff
    by (cases wb) (auto simp: loadCredentialsFromExcelBuffer_def)
  have okf: "\<exists>rs. wb = Inr rs \<and> (\<exists>r\<in>set rs. parseRow r \<noteq> None)
               \<and> snd (loadCredentialsFromExcel s wb) = collectProfiles rs"
    if "success (fst (loadCredentialsFromExcel s wb))"
    using that parseExcelWorkbook_success parseExcelWorkbook_success_iff
    by (cases wb) (auto simp: loadCredentialsFromExcel_def)
  show ?thesis
    using b f thrown empty novalid okb okf by simp
qed

text \<open>The theorem at a sheet with no valid row, loaded over the sample store, and at the sample sheet.\<close>

theorem failed_load_keeps_store_witness:
  "\<not> success (fst (loadCredentialsFromExcelBuffer sample_store (Inr malformed_rows)))
   \<and> snd (loadCredentialsFromExcelBuffer sample_store (Inr malformed_rows)) = sample_store
   \<and> getCredentialsByProfileId
        (snd (loadCredentialsFromExcelBuffer sample_store (Inr malformed_rows))) ''p2''
      = Some (sample_store ! 1)
   \<and> \<not> success (fst (loadCredentialsFromExcel sample_store (Inr malformed_rows)))
   \<and> snd (loadCredentialsFromExcel sample_store (Inr malformed_rows)) = sample_store
   \<and> success (fst (loadCredentialsFromExcelBuffer [] (Inr sample_rows)))
   \<and> snd (loadCredentialsFromExcelBuffer [] (Inr sample_rows)) = collectProfiles sample_rows
   \<and> success (fst (loadCredentialsFromExcel [] (Inr sample_rows)))
   \<and> snd (loadCredentialsFromExcel [] (Inr sample_rows)) = collectProfiles sample_rows"
proof -
  have none: "\<forall>r\<in>set malformed_rows. parseRow r = None"
    by code_simp
  have idq: "getCredentialsByProfileId sample_store ''p2'' = Some (sample_store ! 1)"
    by code_simp
  have okb: "success (fst (loadCredentialsFromExcelBuffer [] (Inr sample_rows)))"
    by code_simp
  have okf: "success (fst (loadCredentialsFromExcel [] (Inr sample_rows)))"
    by code_simp
  note bad = failed_load_keeps_store [of sample_store "Inr malformed_rows" "[]" malformed_rows]
  note good = failed_load_keeps_store [of "[]" "Inr sample_rows" "[]" "[]"]
  from bad none have
    "\<not> success (fst (loadCredentialsFromExcelBuffer sample_store (Inr malformed_rows)))"
    "\<not> success (fst (loadCredentialsFromExcel sample_store (Inr malformed_rows)))"
    by blast+
  with bad idq have
    "\<not> success (fst (loadCredentialsFromExcelBuffer sample_store (Inr malformed_rows)))
     \<and> snd (loadCredentialsFromExcelBuffer sample_store (Inr malformed_rows)) = sample_store
     \<and> getCredentialsByProfileId
          (snd (loadCredentialsFromExcelBuffer sample_store (Inr malformed_rows))) ''p2''
        = Some (sample_store ! 1)
     \<and> \<not> success (fst (loadCredentialsFromExcel sample_store (Inr malformed_rows)))
     \<and> snd (loadCredentialsFromExcel sample_store (Inr malformed_rows)) = sample_store"
    by simp
  moreover from good okb okf have
    "snd (loadCredentialsFromExcelBuffer [] (Inr sample_rows)) = collectProfiles sample_rows
     \<and> snd (loadCredentialsFromExcel [] (Inr sample_rows)) = collectProfiles sample_rows"
    by auto
  ultimately show ?thesis using okb okf by blast
qed

section \<open>ECMAScript time values: proofs\<close>

lemma div_succ:
  fixes x n :: int
  assumes n: "0 < n"
  shows "(x + 1) div n = x div n + (if (x + 1) mod n = 0 then 1 else 0)"
proof -
  define q where "q = x div n"
  define r where "r = x mod n"
  have x: "x = q * n + r" by (simp add: q_def r_def)
  have r: "0 \<le> r" "r < n" using n by (simp_all add: r_def)
  show ?thesis
  proof (cases "r + 1 = n")
    case True
    then have "x + 1 = (q + 1) * n" using x by (simp add: algebra_simps)
    then have "(x + 1) div n = q + 1" "(x + 1) mod n = 0" using n by simp_all
    then show ?thesis by (simp add: q_def)
  next
    case False
    with r have lt: "r + 1 < n" by simp
    have e: "x + 1 = (r + 1) + q * n" using x by simp
    have "(x + 1) div n = (r + 1) div n + q" unfolding e using n by simp
    moreover have "(r + 1) div n = 0" using r lt by simp
    moreover have "(x + 1) mod n = (r + 1) mod n" unfolding e by simp
    moreover have "(r + 1) mod n = r + 1" using r lt by simp
    ultimately show ?thesis using r by (simp add: q_def)
  qed
qed

lemma mod_shift: "(y - k * n) mod n = y mod n" for y k n :: int
  by (rule mod_diff_cong [where b' = 0, simplified]) simp_all

lemma leap_mod4: "(y - 1969 + 1) mod 4 = y mod 4" for y :: int
  using mod_shift [of y 492 4] by simp

lemma leap_mod100: "(y - 1901 + 1) mod 100 = y mod 100" for y :: int
  using mod_shift [of y 19 100] by simp

lemma leap_mod400: "(y - 1601 + 1) mod 400 = y mod 400" for y :: int
  using mod_shift [of y 4 400] by simp

lemma mod100_mod4: "y mod 100 = 0 \<Longrightarrow> y mod 4 = 0" for y :: int
  by presburger

lemma mod400_mod100: "y mod 400 = 0 \<Longrightarrow> y mod 100 = 0" for y :: int
  by presburger

lemma DayFromYear_step: "DayFromYear (y + 1) = DayFromYear y + DaysInYear y"
proof -
  have a: "(y + 1 - 1969) div 4 = (y - 1969) div 4 + (if y mod 4 = 0 then 1 else 0)"
    using div_succ [of 4 "y - 1969"] leap_mod4 [of y] by (simp add: algebra_simps)
  have b: "(y + 1 - 1901) div 100 = (y - 1901) div 100 + (if y mod 100 = 0 then 1 else 0)"
    using div_succ [of 100 "y - 1901"] leap_mod100 [of y] by (simp add: algebra_simps)
  have c: "(y + 1 - 1601) div 400 = (y - 1601) div 400 + (if y mod 400 = 0 then 1 else 0)"
    using div_succ [of 400 "y - 1601"] leap_mod400 [of y] by (simp add: algebra_simps)
  show ?thesis
    unfolding DayFromYear_def DaysInYear_def a b c
    using mod100_mod4 [of y] mod400_mod100 [of y] by auto
qed

lemma DaysInYear_bounds: "365 \<le> DaysInYear y" "DaysInYear y \<le> 366"
  by (simp_all add: DaysInYear_def)

lemma DayFromYear_mono_aux: "0 \<le> k \<Longrightarrow> DayFromYear y + 365 * k \<le> DayFromYear (y + k) \<and>
    DayFromYear (y + k) \<le> DayFromYear y + 366 * k"
proof (induction k rule: int_ge_induct)
  case base
  then show ?case by simp
next
  case (step i)
  have "DayFromYear (y + (i + 1)) = DayFromYear (y + i) + DaysInYear (y + i)"
    using DayFromYear_step [of "y + i"] by (simp add: add.assoc)
  with step.IH DaysInYear_bounds [of "y + i"] show ?case by simp
qed

lemma DayFromYear_strict_mono: "y < y' \<Longrightarrow> DayFromYear y < DayFromYear y'"
  using DayFromYear_mono_aux [of "y' - y" y] by simp



















section \<open>Monthly settlement series: proofs\<close>









text \<open>A window computed outright: February 2024, a leap year.\<close>

lemma getMonthTimestamps_feb_2024:
  "getMonthTimestamps 2024 1 = (Some 1706774400000, Some 1709279999999)"
  by code_simp



section \<open>Jobs: proofs\<close>

subsection \<open>Traces of the start block and of fetchTikTokDataFast\<close>

lemma fetch_events:
  "\<exists>tail. fst (fetchTikTokDataFast e port p)
            = [BrowserConnect port, CallStop p (stop_reply_fast e)] @ tail
        \<and> (\<forall>x\<in>set tail. obtained_port x = None \<and> \<not> is_start x \<and> \<not> is_stop x)"
  by (auto simp: fetchTikTokDataFast_def Let_def split: sum.splits)

lemma stop_follows_append_no_call:
  "\<forall>x\<in>set xs. \<not> is_start x \<and> \<not> is_stop x \<Longrightarrow> stop_follows p (xs @ es) = stop_follows p es"
proof (induction xs)
  case Nil
  then show ?case by simp
next
  case (Cons x xs)
  then show ?case by (cases x) auto
qed

lemma stops_cover_append_plain:
  "\<forall>x\<in>set xs. obtained_port x = None \<Longrightarrow> stops_cover (xs @ es) = stops_cover es"
  by (induction xs) auto

lemma stop_follows_fetch:
  "stop_follows p (fst (fetchTikTokDataFast e port p) @ es)"
proof -
  from fetch_events [of e port p] obtain tail where
    "fst (fetchTikTokDataFast e port p) = [BrowserConnect port, CallStop p (stop_reply_fast e)] @ tail"
    by blast
  then show ?thesis by simp
qed

lemma stops_cover_fetch:
  "stops_cover (fst (fetchTikTokDataFast e port p) @ es) = stops_cover es"
proof -
  from fetch_events [of e port p] obtain tail where
    t: "fst (fetchTikTokDataFast e port p) = [BrowserConnect port, CallStop p (stop_reply_fast e)] @ tail"
    "\<forall>x\<in>set tail. obtained_port x = None"
    by blast
  show ?thesis unfolding t(1) using stops_cover_append_plain [OF t(2)] by simp
qed

lemma fetch_counts:
  "length (filter is_start (fst (fetchTikTokDataFast e port p))) = 0"
  "length (filter is_stop (fst (fetchTikTokDataFast e port p))) = 1"
proof -
  from fetch_events [of e port p] obtain tail where
    t: "fst (fetchTikTokDataFast e port p) = [BrowserConnect port, CallStop p (stop_reply_fast e)] @ tail"
    "\<forall>x\<in>set tail. obtained_port x = None \<and> \<not> is_start x \<and> \<not> is_stop x"
    by blast
  from t(2) have "filter is_start tail = []" "filter is_stop tail = []"
    by (auto simp: filter_empty_conv)
  then show "length (filter is_start (fst (fetchTikTokDataFast e port p))) = 0"
    "length (filter is_stop (fst (fetchTikTokDataFast e port p))) = 1"
    unfolding t(1) by simp_all
qed

text \<open>The start block: its events, by outcome.\<close>

lemma startProfile_port:
  "startProfile fm cm sr st p = (evs, Port port) \<Longrightarrow>
     (evs = [CallStart p sr] \<and> sr = StartResolved 1 True port)
   \<or> (evs = [CallStart p sr, CallStatus p st] \<and> (\<exists>m. sr = StartRejected (Some 409) m)
       \<and> st = StatusResolved (Some port) \<and> port \<noteq> 0)"
  by (auto simp: startProfile_def split: start_reply.splits status_reply.splits option.splits if_splits)

lemma startProfile_no_port:
  "startProfile fm cm sr st p = (evs, out) \<Longrightarrow> \<forall>port. out \<noteq> Port port \<Longrightarrow>
     \<forall>x\<in>set evs. obtained_port x = None"
  by (auto simp: startProfile_def split: start_reply.splits status_reply.splits option.splits if_splits)

lemma startProfile_one_start:
  "length (filter is_start (fst (startProfile fm cm sr st p))) = 1"
  "filter is_stop (fst (startProfile fm cm sr st p)) = []"
  by (auto simp: startProfile_def split: start_reply.splits status_reply.splits option.splits if_splits)

lemma startProfile_400:
  "startProfile fm cm (StartRejected (Some 400) m) st p
     = ([CallStart p (StartRejected (Some 400) m)], InUse400)"
  by (simp add: startProfile_def)

lemma stops_cover_started:
  assumes "startProfile fm cm sr st p = (evs, Port port)" "stop_follows p es"
  shows "stops_cover (evs @ es) = stops_cover es"
  using startProfile_port [OF assms(1)] assms(2) by auto

subsection \<open>One attempt\<close>

lemma tryProfile_cases:
  obtains
    (in_use) "snd (batch_start a p) = InUse400"
      "tryProfile a p = (fst (batch_start a p), Inr (failure_result p skipped_message))"
  | (thrown) m where "snd (batch_start a p) = StartThrown m"
      "tryProfile a p = (fst (batch_start a p), Inl m)"
  | (fetched) port where "snd (batch_start a p) = Port port"
      "fst (tryProfile a p)
         = fst (batch_start a p) @ [Sleep 3000] @ fst (fetchTikTokDataFast (fast a) port p)"
      "(\<exists>m. snd (tryProfile a p) = Inl m \<and> snd (fetchTikTokDataFast (fast a) port p) = Inl m)
       \<or> (\<exists>r d. snd (tryProfile a p) = Inr r \<and> snd (fetchTikTokDataFast (fast a) port p) = Inr d
             \<and> res_profileId r = p \<and> res_success r)"
proof -
  obtain evs out where s: "batch_start a p = (evs, out)"
    by (cases "batch_start a p")
  show ?thesis
  proof (cases out)
    case (Port port)
    obtain f r where fr: "fetchTikTokDataFast (fast a) port p = (f, r)"
      by (cases "fetchTikTokDataFast (fast a) port p")
    show ?thesis
    proof (rule fetched [of port])
      show "snd (batch_start a p) = Port port" by (simp add: s Port)
      show "fst (tryProfile a p)
           = fst (batch_start a p) @ [Sleep 3000] @ fst (fetchTikTokDataFast (fast a) port p)"
        by (cases r) (simp_all add: tryProfile_def s Port fr)
      show "(\<exists>m. snd (tryProfile a p) = Inl m \<and> snd (fetchTikTokDataFast (fast a) port p) = Inl m)
         \<or> (\<exists>r d. snd (tryProfile a p) = Inr r \<and> snd (fetchTikTokDataFast (fast a) port p) = Inr d
               \<and> res_profileId r = p \<and> res_success r)"
        by (cases r) (simp_all add: tryProfile_def s Port fr)
    qed
  next
    case InUse400
    show ?thesis
      by (rule in_use) (simp_all add: tryProfile_def s InUse400)
  next
    case (StartThrown m)
    show ?thesis
      by (rule thrown [of m]) (simp_all add: tryProfile_def s StartThrown)
  qed
qed

lemma tryProfile_cover:
  "stops_cover (fst (tryProfile a p) @ es) = stops_cover es"
proof (cases a p rule: tryProfile_cases)
  case in_use
  have "\<forall>x\<in>set (fst (batch_start a p)). obtained_port x = None"
    using in_use(1) by (intro startProfile_no_port [of _ _ _ _ _ _ InUse400]) (simp_all add: prod_eq_iff)
  then show ?thesis by (simp add: in_use(2) stops_cover_append_plain)
next
  case (thrown m)
  have "\<forall>x\<in>set (fst (batch_start a p)). obtained_port x = None"
    using thrown(1) by (intro startProfile_no_port [of _ _ _ _ _ _ "StartThrown m"]) (simp_all add: prod_eq_iff)
  then show ?thesis by (simp add: thrown(2) stops_cover_append_plain)
next
  case (fetched port)
  have s: "batch_start a p = (fst (batch_start a p), Port port)"
    using fetched(1) by (metis prod.collapse)
  have sf: "stop_follows p ([Sleep 3000] @ fst (fetchTikTokDataFast (fast a) port p) @ es)"
    using stop_follows_fetch [of p "fast a" port es] by simp
  have "stops_cover (fst (tryProfile a p) @ es)
      = stops_cover (fst (batch_start a p)
                       @ ([Sleep 3000] @ fst (fetchTikTokDataFast (fast a) port p) @ es))"
    by (simp add: fetched(2))
  also have "\<dots> = stops_cover ([Sleep 3000] @ fst (fetchTikTokDataFast (fast a) port p) @ es)"
    by (rule stops_cover_started [OF s sf])
  also have "\<dots> = stops_cover es"
    using stops_cover_fetch [of "fast a" port p es] by simp
  finally show ?thesis .
qed

lemma tryProfile_one_start:
  "length (filter is_start (fst (tryProfile a p))) = 1"
proof (cases a p rule: tryProfile_cases)
  case in_use
  then show ?thesis by (simp add: startProfile_one_start)
next
  case (thrown m)
  then show ?thesis by (simp add: startProfile_one_start)
next
  case (fetched port)
  then show ?thesis by (simp add: startProfile_one_start fetch_counts)
qed

lemma tryProfile_400:
  "start_r a = StartRejected (Some 400) m \<Longrightarrow>
   tryProfile a p = ([CallStart p (start_r a)], Inr (failure_result p skipped_message))"
  by (simp add: tryProfile_def startProfile_400)

lemma tryProfile_result_id:
  "snd (tryProfile a p) = Inr r \<Longrightarrow> res_profileId r = p"
  by (cases a p rule: tryProfile_cases) (auto simp: failure_result_def)

subsection \<open>The job with its retry\<close>

lemma processProfile_returned:
  "snd (tryProfile (env rc) p) = Inr r \<Longrightarrow>
   processProfile env p idx rc = (fst (tryProfile (env rc) p), r)"
  by (subst processProfile.simps) simp

lemma processProfile_not_transient:
  "snd (tryProfile (env rc) p) = Inl m \<Longrightarrow> \<not> transient m \<Longrightarrow>
   processProfile env p idx rc
     = (fst (tryProfile (env rc) p) @ [CallStop p (stop_reply_catch (env rc))], failure_result p m)"
  by (subst processProfile.simps) (auto simp: transient_def)

lemma processProfile_retry:
  "snd (tryProfile (env rc) p) = Inl m \<Longrightarrow> transient m \<Longrightarrow> rc < MAX_RETRIES \<Longrightarrow>
   processProfile env p idx rc
     = (fst (tryProfile (env rc) p) @ [CallStop p (stop_reply_catch (env rc)), Sleep 5000]
          @ fst (processProfile env p idx (rc + 1)),
        snd (processProfile env p idx (rc + 1)))"
  by (subst processProfile.simps) (simp add: transient_def)

lemma processProfile_exhausted:
  "snd (tryProfile (env rc) p) = Inl m \<Longrightarrow> \<not> rc < MAX_RETRIES \<Longrightarrow>
   processProfile env p idx rc
     = (fst (tryProfile (env rc) p) @ [CallStop p (stop_reply_catch (env rc))], failure_result p m)"
  by (subst processProfile.simps) simp

lemma processProfile_last:
  "\<not> rc < MAX_RETRIES \<Longrightarrow>
   processProfile env p idx rc
     = (case snd (tryProfile (env rc) p) of
          Inr r \<Rightarrow> (fst (tryProfile (env rc) p), r)
        | Inl m \<Rightarrow> (fst (tryProfile (env rc) p) @ [CallStop p (stop_reply_catch (env rc))],
                    failure_result p m))"
  by (subst processProfile.simps) (simp split: sum.splits)

lemma processProfile_cover: "stops_cover (fst (processProfile env p idx rc))"
proof (induction env p idx rc rule: processProfile.induct)
  case (1 env p idx rc)
  show ?case
  proof (cases "snd (tryProfile (env rc) p)")
    case (Inr r)
    then show ?thesis
      using tryProfile_cover [of "env rc" p "[]"] by (simp add: processProfile_returned [of env rc p r idx])
  next
    case (Inl m)
    show ?thesis
    proof (cases "transient m \<and> rc < MAX_RETRIES")
      case True
      then have t: "\<not> (includes_str m ''Skipped'' \<or> includes_str m ''in use'')" "rc < MAX_RETRIES"
        by (simp_all add: transient_def)
      from "1.IH"(1) [OF Inl t]
      have "stops_cover (fst (processProfile env p idx (rc + 1)))" .
      then show ?thesis
        using True tryProfile_cover [of "env rc" p]
        by (simp add: processProfile_retry [of env rc p m idx, OF Inl])
    next
      case False
      then have "processProfile env p idx rc
          = (fst (tryProfile (env rc) p) @ [CallStop p (stop_reply_catch (env rc))],
             failure_result p m)"
        using processProfile_not_transient [of env rc p m idx, OF Inl]
          processProfile_exhausted [of env rc p m idx, OF Inl] by blast
      then show ?thesis using tryProfile_cover [of "env rc" p] by simp
    qed
  qed
qed

lemma processProfile_result_id: "res_profileId (snd (processProfile env p idx rc)) = p"
proof (induction env p idx rc rule: processProfile.induct)
  case (1 env p idx rc)
  show ?case
  proof (cases "snd (tryProfile (env rc) p)")
    case (Inr r)
    then show ?thesis
      using tryProfile_result_id [OF Inr] by (simp add: processProfile_returned [of env rc p r idx])
  next
    case (Inl m)
    show ?thesis
    proof (cases "transient m \<and> rc < MAX_RETRIES")
      case True
      then have t: "\<not> (includes_str m ''Skipped'' \<or> includes_str m ''in use'')" "rc < MAX_RETRIES"
        by (simp_all add: transient_def)
      from "1.IH"(2) [OF Inl t] True show ?thesis
        by (simp add: processProfile_retry [of env rc p m idx, OF Inl])
    next
      case False
      then have "processProfile env p idx rc
          = (fst (tryProfile (env rc) p) @ [CallStop p (stop_reply_catch (env rc))],
             failure_result p m)"
        using processProfile_not_transient [of env rc p m idx, OF Inl]
          processProfile_exhausted [of env rc p m idx, OF Inl] by blast
      then show ?thesis by (simp add: failure_result_def)
    qed
  qed
qed

text \<open>The replies to the stop requests do not reach the result.\<close>

lemma fetch_stop_reply_swallowed:
  "snd (fetchTikTokDataFast (e\<lparr>stop_reply_fast := r\<rparr>) port p) = snd (fetchTikTokDataFast e port p)"
  by (simp add: fetchTikTokDataFast_def Let_def split: sum.splits)

lemma tryProfile_stop_reply_swallowed:
  "snd (tryProfile (with_stop_replies r1 r2 a) p) = snd (tryProfile a p)"
proof -
  obtain evs out where s: "batch_start a p = (evs, out)"
    by (cases "batch_start a p")
  have s': "batch_start (with_stop_replies r1 r2 a) p = (evs, out)"
    using s by (simp add: with_stop_replies_def)
  show ?thesis
  proof (cases out)
    case (Port port)
    obtain f v where fr: "fetchTikTokDataFast (fast a) port p = (f, v)"
      by (cases "fetchTikTokDataFast (fast a) port p")
    obtain f' v' where fr': "fetchTikTokDataFast (fast (with_stop_replies r1 r2 a)) port p = (f', v')"
      by (cases "fetchTikTokDataFast (fast (with_stop_replies r1 r2 a)) port p")
    have "v' = v"
      using fetch_stop_reply_swallowed [where e = "fast a" and r = r1 and port = port and p = p] fr fr'
      by (simp add: with_stop_replies_def)
    then show ?thesis
      by (cases v) (simp_all add: tryProfile_def s s' Port fr fr')
  next
    case InUse400
    then show ?thesis by (simp add: tryProfile_def s s')
  next
    case (StartThrown m)
    then show ?thesis by (simp add: tryProfile_def s s')
  qed
qed

lemma processProfile_stop_replies_swallowed:
  "snd (processProfile (\<lambda>n. with_stop_replies (r1 n) (r2 n) (env n)) p idx rc)
     = snd (processProfile env p idx rc)"
proof (induction env p idx rc rule: processProfile.induct)
  case (1 env p idx rc)
  let ?env' = "\<lambda>n. with_stop_replies (r1 n) (r2 n) (env n)"
  have same: "snd (tryProfile (?env' rc) p) = snd (tryProfile (env rc) p)"
    by (rule tryProfile_stop_reply_swallowed)
  show ?case
  proof (cases "snd (tryProfile (env rc) p)")
    case (Inr r)
    then have "snd (tryProfile (?env' rc) p) = Inr r" using same by simp
    from processProfile_returned [of ?env' rc p r idx, OF this]
      processProfile_returned [of env rc p r idx, OF Inr]
    show ?thesis by simp
  next
    case (Inl m)
    then have Inl': "snd (tryProfile (?env' rc) p) = Inl m" using same by simp
    show ?thesis
    proof (cases "transient m \<and> rc < MAX_RETRIES")
      case True
      then have t: "\<not> (includes_str m ''Skipped'' \<or> includes_str m ''in use'')" "rc < MAX_RETRIES"
        by (simp_all add: transient_def)
      from "1.IH"(2) [OF Inl t] True show ?thesis
        using processProfile_retry [of ?env' rc p m idx, OF Inl']
          processProfile_retry [of env rc p m idx, OF Inl]
        by simp
    next
      case False
      then have "snd (processProfile env p idx rc) = failure_result p m"
        using processProfile_not_transient [of env rc p m idx, OF Inl]
          processProfile_exhausted [of env rc p m idx, OF Inl]
        by fastforce
      moreover from False have "snd (processProfile ?env' p idx rc) = failure_result p m"
        using processProfile_not_transient [of ?env' rc p m idx, OF Inl']
          processProfile_exhausted [of ?env' rc p m idx, OF Inl']
        by fastforce
      ultimately show ?thesis by simp
    qed
  qed
qed

text \<open>
  C3.  In the batch orchestrator, a job whose start request is answered with
  status 400 returns the "skipped" record at once: its only event is that start
  request.  A job whose first attempt throws for a transient reason (a message that
  marks it neither as skipped nor as in use) sends its stop request, sleeps 5000 ms
  and makes exactly one more attempt, so that two start requests are sent in all;
  the job's record is what the second attempt returns or, if that attempt throws
  again, the failure record with the message of the second error.
\<close>

theorem batch_retry_policy:
  "(start_r (env 0) = StartRejected (Some 400) m0 \<longrightarrow>
      processProfile env p idx 0
        = ([CallStart p (start_r (env 0))], failure_result p skipped_message))
   \<and> (snd (tryProfile (env 0) p) = Inl m \<and> transient m \<longrightarrow>
        fst (processProfile env p idx 0)
          = fst (tryProfile (env 0) p)
            @ [CallStop p (stop_reply_catch (env 0)), Sleep 5000]
            @ fst (tryProfile (env 1) p)
            @ (case snd (tryProfile (env 1) p) of
                 Inl m' \<Rightarrow> [CallStop p (stop_reply_catch (env 1))]
               | Inr r \<Rightarrow> [])
        \<and> length (filter is_start (fst (processProfile env p idx 0))) = 2
        \<and> snd (processProfile env p idx 0)
            = (case snd (tryProfile (env 1) p) of
                 Inl m' \<Rightarrow> failure_result p m'
               | Inr r \<Rightarrow> r))"
proof (intro conjI impI)
  assume "start_r (env 0) = StartRejected (Some 400) m0"
  then have "tryProfile (env 0) p
      = ([CallStart p (start_r (env 0))], Inr (failure_result p skipped_message))"
    by (rule tryProfile_400)
  then show "processProfile env p idx 0
      = ([CallStart p (start_r (env 0))], failure_result p skipped_message)"
    using processProfile_returned [of env 0 p "failure_result p skipped_message" idx] by simp
next
  assume a: "snd (tryProfile (env 0) p) = Inl m \<and> transient m"
  have lt: "(0::nat) < MAX_RETRIES" by (simp add: MAX_RETRIES_def)
  have last: "\<not> (1::nat) < MAX_RETRIES" by (simp add: MAX_RETRIES_def)
  have first: "processProfile env p idx 0
      = (fst (tryProfile (env 0) p) @ [CallStop p (stop_reply_catch (env 0)), Sleep 5000]
           @ fst (processProfile env p idx (0 + 1)),
         snd (processProfile env p idx (0 + 1)))"
    using a lt by (intro processProfile_retry [of env 0 p m idx]) simp_all
  have second: "processProfile env p idx 1
      = (case snd (tryProfile (env 1) p) of
           Inr r \<Rightarrow> (fst (tryProfile (env 1) p), r)
         | Inl m' \<Rightarrow> (fst (tryProfile (env 1) p) @ [CallStop p (stop_reply_catch (env 1))],
                     failure_result p m'))"
    using last by (rule processProfile_last)
  show tr: "fst (processProfile env p idx 0)
      = fst (tryProfile (env 0) p)
        @ [CallStop p (stop_reply_catch (env 0)), Sleep 5000]
        @ fst (tryProfile (env 1) p)
        @ (case snd (tryProfile (env 1) p) of
             Inl m' \<Rightarrow> [CallStop p (stop_reply_catch (env 1))]
           | Inr r \<Rightarrow> [])"
    unfolding first using second by (simp split: sum.splits)
  show "length (filter is_start (fst (processProfile env p idx 0))) = 2"
    unfolding tr by (simp add: tryProfile_one_start split: sum.splits)
  show "snd (processProfile env p idx 0)
      = (case snd (tryProfile (env 1) p) of
           Inl m' \<Rightarrow> failure_result p m'
         | Inr r \<Rightarrow> r)"
    unfolding first using second by (simp split: sum.splits)
qed

text \<open>
  The theorem at a control plane that answers 500 to the first start request and
  400 to the second.
\<close>

theorem batch_retry_policy_witness:
  "start_r (env_500_then_400 1) = StartRejected (Some 400) ''Request failed with status code 400''
   \<and> processProfile (\<lambda>n. env_500_then_400 (Suc n)) ''p1'' 0 0
       = ([CallStart ''p1'' (start_r (env_500_then_400 1))],
          failure_result ''p1'' skipped_message)
   \<and> snd (tryProfile (env_500_then_400 0) ''p1'') = Inl ''Request failed with status code 500''
   \<and> transient ''Request failed with status code 500''
   \<and> length (filter is_start (fst (processProfile env_500_then_400 ''p1'' 0 0))) = 2
   \<and> snd (processProfile env_500_then_400 ''p1'' 0 0) = failure_result ''p1'' skipped_message"
proof -
  have h1: "start_r (env_500_then_400 (Suc 0))
      = StartRejected (Some 400) ''Request failed with status code 400''"
    by code_simp
  have h2: "snd (tryProfile (env_500_then_400 0) ''p1'') = Inl ''Request failed with status code 500''
      \<and> transient ''Request failed with status code 500''"
    by code_simp
  have second: "snd (tryProfile (env_500_then_400 1) ''p1'')
      = Inr (failure_result ''p1'' skipped_message)"
    by code_simp
  note A = batch_retry_policy [of "\<lambda>n. env_500_then_400 (Suc n)"
      "''Request failed with status code 400''" "''p1''" 0 "[]"]
  note B = batch_retry_policy [of env_500_then_400 "[]" "''p1''" 0
      "''Request failed with status code 500''"]
  from A h1 have a: "processProfile (\<lambda>n. env_500_then_400 (Suc n)) ''p1'' 0 0
       = ([CallStart ''p1'' (start_r (env_500_then_400 1))],
          failure_result ''p1'' skipped_message)"
    by simp
  from B h2 have bb:
    "length (filter is_start (fst (processProfile env_500_then_400 ''p1'' 0 0))) = 2
     \<and> snd (processProfile env_500_then_400 ''p1'' 0 0)
         = (case snd (tryProfile (env_500_then_400 1) ''p1'') of
              Inl m' \<Rightarrow> failure_result ''p1'' m'
            | Inr r \<Rightarrow> r)"
    by blast
  then have b:
    "length (filter is_start (fst (processProfile env_500_then_400 ''p1'' 0 0))) = 2"
    "snd (processProfile env_500_then_400 ''p1'' 0 0) = failure_result ''p1'' skipped_message"
    unfolding second by simp_all
  from h1 h2 a b show ?thesis by simp
qed

subsection \<open>Promise.all and the chunk loop\<close>

lemma fold_slots:
  "length slots = length vals \<Longrightarrow>
   length (fold (\<lambda>k s. if k < length vals then s[k := Some (vals ! k)] else s) xs slots)
     = length vals
   \<and> (\<forall>j<length vals.
        fold (\<lambda>k s. if k < length vals then s[k := Some (vals ! k)] else s) xs slots ! j
          = (if j \<in> set xs then Some (vals ! j) else slots ! j))"
proof (induction xs arbitrary: slots)
  case Nil
  then show ?case by simp
next
  case (Cons x xs)
  let ?s = "if x < length vals then slots[x := Some (vals ! x)] else slots"
  have len: "length ?s = length vals" using Cons.prems by simp
  from Cons.IH [OF len] Cons.prems show ?case
    by (auto simp: nth_list_update)
qed

lemma those_map_Some: "those (map Some xs) = Some xs"
  by (induction xs) simp_all

lemma promise_all_complete:
  assumes "set completion = {0..<length vals}"
  shows "promise_all vals completion = Some vals"
proof -
  let ?slots = "fold (\<lambda>k s. if k < length vals then s[k := Some (vals ! k)] else s)
                  completion (replicate (length vals) None)"
  have "length ?slots = length vals"
    and "\<forall>j<length vals. ?slots ! j = (if j \<in> set completion then Some (vals ! j)
                                         else replicate (length vals) None ! j)"
    using fold_slots [of "replicate (length vals) None" vals completion] by simp_all
  with assms have "?slots = map Some vals"
    by (intro nth_equalityI) simp_all
  then show ?thesis by (simp add: promise_all_def those_map_Some)
qed

lemma chunk_jobs:
  assumes "i < length ids"
  shows "map (\<lambda>idx. snd (processProfile (env (i + idx)) (take CHUNK_SIZE (drop i ids) ! idx)
                          (i + idx) 0))
           [0..<length (take CHUNK_SIZE (drop i ids))]
       = map (\<lambda>k. snd (processProfile (env k) (ids ! k) k 0))
           [i..<min (i + CHUNK_SIZE) (length ids)]"
proof -
  let ?n = "length (take CHUNK_SIZE (drop i ids))"
  have n: "i + ?n = min (i + CHUNK_SIZE) (length ids)" using assms by simp
  have "[i..<i + ?n] = map (\<lambda>idx. i + idx) [0..<?n]"
    by (simp add: map_add_upt add.commute)
  then have "map (\<lambda>k. snd (processProfile (env k) (ids ! k) k 0)) [i..<i + ?n]
      = map (\<lambda>idx. snd (processProfile (env (i + idx)) (ids ! (i + idx)) (i + idx) 0)) [0..<?n]"
    by (simp add: comp_def)
  also have "\<dots> = map (\<lambda>idx. snd (processProfile (env (i + idx))
                         (take CHUNK_SIZE (drop i ids) ! idx) (i + idx) 0)) [0..<?n]"
    by (rule map_cong) (simp_all add: assms less_imp_le)
  finally show ?thesis unfolding n by simp
qed

lemma batchChunks_result:
  assumes "\<forall>c. c * CHUNK_SIZE < length ids \<longrightarrow>
              set (completion c) = {0..<min CHUNK_SIZE (length ids - c * CHUNK_SIZE)}"
  shows "batchChunks env completion ids (c * CHUNK_SIZE) results
       = Some (results @ map (\<lambda>k. snd (processProfile (env k) (ids ! k) k 0))
                           [c * CHUNK_SIZE..<length ids])"
proof (induction "length ids - c * CHUNK_SIZE" arbitrary: c results rule: less_induct)
  case less
  let ?i = "c * CHUNK_SIZE"
  let ?job = "\<lambda>k. snd (processProfile (env k) (ids ! k) k 0)"
  show ?case
  proof (cases "?i < length ids")
    case False
    then show ?thesis by (subst batchChunks.simps) simp
  next
    case True
    let ?vals = "map (\<lambda>idx. snd (processProfile (env (?i + idx))
                        (take CHUNK_SIZE (drop ?i ids) ! idx) (?i + idx) 0))
                   [0..<length (take CHUNK_SIZE (drop ?i ids))]"
    have vals: "?vals = map ?job [?i..<min (?i + CHUNK_SIZE) (length ids)]"
      by (rule chunk_jobs [OF True])
    have "length ?vals = min CHUNK_SIZE (length ids - ?i)" by simp
    with assms True have "set (completion c) = {0..<length ?vals}" by simp
    then have pa: "promise_all ?vals (completion c) = Some ?vals"
      by (rule promise_all_complete)
    have cdiv: "?i div CHUNK_SIZE = c" by (simp add: CHUNK_SIZE_def)
    have step: "batchChunks env completion ids ?i results
        = batchChunks env completion ids (Suc c * CHUNK_SIZE) (results @ ?vals)"
      using True by (subst batchChunks.simps) (simp only: cdiv pa, simp add: add.commute)
    have "length ids - Suc c * CHUNK_SIZE < length ids - ?i"
      using True by (simp add: CHUNK_SIZE_def)
    from less [OF this]
    have next_: "batchChunks env completion ids (Suc c * CHUNK_SIZE) (results @ ?vals)
        = Some ((results @ ?vals) @ map ?job [Suc c * CHUNK_SIZE..<length ids])" .
    have A: "batchChunks env completion ids ?i results
        = Some ((results @ ?vals) @ map ?job [Suc c * CHUNK_SIZE..<length ids])"
      by (rule trans [OF step next_])
    have "[?i..<length ids]
        = [?i..<min (?i + CHUNK_SIZE) (length ids)] @ [Suc c * CHUNK_SIZE..<length ids]"
    proof (cases "?i + CHUNK_SIZE \<le> length ids")
      case True
      then have "[?i..<length ids] = [?i..<?i + CHUNK_SIZE] @ [?i + CHUNK_SIZE..<length ids]"
        using upt_add_eq_append [of ?i "?i + CHUNK_SIZE" "length ids - (?i + CHUNK_SIZE)"]
        by simp
      with True show ?thesis by (simp add: min_def add.commute)
    next
      case False
      then show ?thesis by (simp add: min_def)
    qed
    then have "map ?job [?i..<length ids]
        = ?vals @ map ?job [Suc c * CHUNK_SIZE..<length ids]"
      unfolding vals by (metis map_append)
    then show ?thesis
      unfolding A by (simp only: append_assoc)
  qed
qed

text \<open>
  C9.  Whatever the order in which the jobs of each chunk complete (every job of a
  chunk completing once), the batch returns, and its results are the records of the
  jobs in the order of the input list: one record per input ID, record \<open>k\<close> that of
  job \<open>k\<close>, carrying the \<open>k\<close>-th profile ID.  The records do not depend on the
  order of completion.
\<close>

theorem batch_results_in_input_order:
  assumes "\<forall>c. c * CHUNK_SIZE < length profileIds \<longrightarrow>
              set (completion c) = {0..<min CHUNK_SIZE (length profileIds - c * CHUNK_SIZE)}"
  shows "\<exists>results. batchFetchTikTok env completion profileIds = Some results
           \<and> length results = length profileIds
           \<and> map res_profileId results = profileIds
           \<and> results = map (\<lambda>k. snd (processProfile (env k) (profileIds ! k) k 0))
                           [0..<length profileIds]"
proof -
  let ?job = "\<lambda>k. snd (processProfile (env k) (profileIds ! k) k 0)"
  have "batchFetchTikTok env completion profileIds = Some (map ?job [0..<length profileIds])"
    unfolding batchFetchTikTok_def
    using batchChunks_result [OF assms, of env 0 "[]"] by simp
  moreover have "map res_profileId (map ?job [0..<length profileIds]) = profileIds"
    by (intro nth_equalityI) (simp_all add: processProfile_result_id)
  ultimately show ?thesis by simp
qed

subsection \<open>Extraction that finds nothing\<close>









lemma try_finding_nothing:
  "tryProfile attempt_finding_nothing ''p1''
     = ([CallStart ''p1'' (StartResolved 1 True 9222), Sleep 3000, BrowserConnect 9222,
         CallStop ''p1'' (StopRejected ''socket hang up'')],
        Inl ''Failed to extract seller_id or cookies'')"
  by code_simp



subsection \<open>Where the identifiers of a session come from\<close>

lemma extract_needs_both:
  "extractSellerIdFromUrl url = Some s \<Longrightarrow>
   \<exists>params. searchParams url = Some params
     \<and> map_of params ''seller_id'' = Some (info_sellerId s)
     \<and> map_of params ''oec_seller_id'' = Some (info_oecSellerId s)
     \<and> info_sellerId s \<noteq> [] \<and> info_oecSellerId s \<noteq> []"
  by (auto simp: extractSellerIdFromUrl_def split: option.splits if_splits)

lemma onResponse_source:
  "onResponse s0 url = Some s \<Longrightarrow> s0 = Some s \<or> extractSellerIdFromUrl url = Some s"
  by (auto simp: onResponse_def split: option.splits if_splits)

lemma onResponses_source:
  "onResponses s0 urls = Some s \<Longrightarrow>
   s0 = Some s \<or> (\<exists>url\<in>set urls. extractSellerIdFromUrl url = Some s)"
proof (induction urls arbitrary: s0)
  case Nil
  then show ?case by (simp add: onResponses_def)
next
  case (Cons u us)
  from Cons.prems have "onResponses (onResponse s0 u) us = Some s"
    by (simp add: onResponses_def)
  from Cons.IH [OF this] show ?case
    using onResponse_source [of s0 u s] by auto
qed

lemma pollLoop_source:
  "pollLoop s0 ts = Some s \<Longrightarrow>
   s0 = Some s
   \<or> (\<exists>url\<in>set (concat (map tick_urls ts)). extractSellerIdFromUrl url = Some s)
   \<or> (info_oecSellerId s = info_sellerId s
       \<and> (\<exists>t\<in>set ts. \<exists>page src. evaluate_reply t = EvalReturns page
              \<and> pageData page = Some (info_sellerId s, src)))"
proof (induction s0 ts rule: pollLoop.induct)
  case (1 s' rest)
  then show ?case by simp
next
  case 2
  then show ?case by simp
next
  case (3 t rest)
  let ?next = "onResponses (onResponses None (responses_during_evaluate t)) (responses_during_sleep t)"
  let ?byUrl = "if includes_str (href (current_url t)) ''seller_id=''
                then extractSellerIdFromUrl (current_url t) else None"
  from "3.prems" have open_: "\<not> page_closed t" by (auto split: if_splits)
  show ?case
  proof (cases ?byUrl)
    case (Some s1)
    with "3.prems" open_ have "s1 = s" by simp
    with Some have "extractSellerIdFromUrl (current_url t) = Some s" by (auto split: if_splits)
    then show ?thesis by (auto simp: tick_urls_def)
  next
    case None
    have later: ?thesis if "pollLoop ?next rest = Some s"
      and ih: "pollLoop ?next rest = Some s \<Longrightarrow>
        ?next = Some s
        \<or> (\<exists>url\<in>set (concat (map tick_urls rest)). extractSellerIdFromUrl url = Some s)
        \<or> (info_oecSellerId s = info_sellerId s
            \<and> (\<exists>t\<in>set rest. \<exists>page src. evaluate_reply t = EvalReturns page
                   \<and> pageData page = Some (info_sellerId s, src)))"
    proof -
      from ih [OF that(1)] consider
          (now) "?next = Some s"
        | (url) "\<exists>url\<in>set (concat (map tick_urls rest)). extractSellerIdFromUrl url = Some s"
        | (page) "info_oecSellerId s = info_sellerId s
            \<and> (\<exists>t\<in>set rest. \<exists>page src. evaluate_reply t = EvalReturns page
                   \<and> pageData page = Some (info_sellerId s, src))"
        by blast
      then show ?thesis
      proof cases
        case now
        from onResponses_source [OF now]
        have "onResponses None (responses_during_evaluate t) = Some s
            \<or> (\<exists>url\<in>set (responses_during_sleep t). extractSellerIdFromUrl url = Some s)" .
        then have "\<exists>url\<in>set (tick_urls t). extractSellerIdFromUrl url = Some s"
          using onResponses_source [of None "responses_during_evaluate t" s]
          by (auto simp: tick_urls_def)
        then show ?thesis by auto
      next
        case url
        then show ?thesis by auto
      next
        case page
        then show ?thesis by auto
      qed
    qed
    show ?thesis
    proof (cases "evaluate_reply t")
      case (EvalThrows e)
      with "3.prems" open_ None have run: "pollLoop ?next rest = Some s" by simp
      show ?thesis
        by (rule later [OF run]) (use "3.IH"(1) [OF open_ None EvalThrows] in auto)
    next
      case (EvalReturns page)
      show ?thesis
      proof (cases "pageData page")
        case None' : None
        with "3.prems" open_ None EvalReturns have run: "pollLoop ?next rest = Some s" by simp
        show ?thesis
          by (rule later [OF run]) (use "3.IH"(2) [OF open_ None EvalReturns None'] in auto)
      next
        case (Some found)
        obtain sid src where f: "found = (sid, src)" by (cases found)
        with "3.prems" open_ None EvalReturns Some
        have "s = \<lparr>info_sellerId = sid, info_oecSellerId = sid\<rparr>" by simp
        with EvalReturns Some f show ?thesis by auto
      qed
    qed
  qed
qed

lemma browserPhase_source:
  assumes "got_sellerId (browserPhase b) \<noteq> []"
  shows "\<exists>s. pollLoop (onResponses None (responses_during_goto b)) (ticks b) = Some s
           \<and> got_sellerId (browserPhase b) = info_sellerId s
           \<and> got_oecSellerId (browserPhase b) = info_oecSellerId s"
  using assms by (auto simp: browserPhase_def split: option.splits sum.splits)

lemma session_event:
  assumes "StatApi sid oec ck \<in> set (fst (fetchTikTokDataFast e port p))"
  shows "sid = got_sellerId (browserPhase (browser e))"
    "oec = got_oecSellerId (browserPhase (browser e))"
    "sid \<noteq> []" "got_cookies (browserPhase (browser e)) \<noteq> []"
  using assms by (auto simp: fetchTikTokDataFast_def Let_def split: if_splits sum.splits)

text \<open>
  C5 (as amended).  \<^verbatim>\<open>extractSellerIdFromUrl\<close> yields identifiers only from a URL
  whose query has both \<^verbatim>\<open>seller_id\<close> and \<^verbatim>\<open>oec_seller_id\<close>, non-empty.  A session
  reaches the direct data client only with a non-empty seller ID and at least one
  cookie, and its two identifiers either were both read from one URL the
  extraction saw, or are one and the same value, the \<^verbatim>\<open>seller_id\<close> found in the page
  content.  A result that is returned carries the identifiers of that session.
\<close>

theorem session_identifier_sources:
  "(extractSellerIdFromUrl url = Some s \<longrightarrow>
      (\<exists>params. searchParams url = Some params
         \<and> map_of params ''seller_id'' = Some (info_sellerId s)
         \<and> map_of params ''oec_seller_id'' = Some (info_oecSellerId s)
         \<and> info_sellerId s \<noteq> [] \<and> info_oecSellerId s \<noteq> []))
   \<and> (StatApi sid oec ck \<in> set (fst (fetchTikTokDataFast e port p)) \<longrightarrow>
        sid \<noteq> [] \<and> got_cookies (browserPhase (browser e)) \<noteq> []
        \<and> ((\<exists>u\<in>set (urls_seen (browser e)).
               extractSellerIdFromUrl u = Some \<lparr>info_sellerId = sid, info_oecSellerId = oec\<rparr>)
           \<or> (oec = sid
               \<and> (\<exists>t\<in>set (ticks (browser e)). \<exists>page src.
                      evaluate_reply t = EvalReturns page \<and> pageData page = Some (sid, src)))))
   \<and> (snd (fetchTikTokDataFast e port p) = Inr d \<longrightarrow>
        StatApi (sellerId d) (oecSellerId d) (cookieString (got_cookies (browserPhase (browser e))))
          \<in> set (fst (fetchTikTokDataFast e port p)))"
proof (intro conjI impI)
  assume "extractSellerIdFromUrl url = Some s"
  then show "\<exists>params. searchParams url = Some params
         \<and> map_of params ''seller_id'' = Some (info_sellerId s)
         \<and> map_of params ''oec_seller_id'' = Some (info_oecSellerId s)
         \<and> info_sellerId s \<noteq> [] \<and> info_oecSellerId s \<noteq> []"
    by (rule extract_needs_both)
next
  assume ev: "StatApi sid oec ck \<in> set (fst (fetchTikTokDataFast e port p))"
  note se = session_event [OF ev]
  show "sid \<noteq> []" by (rule se(3))
  show "got_cookies (browserPhase (browser e)) \<noteq> []" by (rule se(4))
  let ?b = "browser e"
  from se(1,3) have "got_sellerId (browserPhase ?b) \<noteq> []" by simp
  from browserPhase_source [OF this] se(1,2)
  obtain s where s: "pollLoop (onResponses None (responses_during_goto ?b)) (ticks ?b) = Some s"
    "info_sellerId s = sid" "info_oecSellerId s = oec"
    by auto
  then have rec: "s = \<lparr>info_sellerId = sid, info_oecSellerId = oec\<rparr>" by simp
  from pollLoop_source [OF s(1)] consider
      (goto) "onResponses None (responses_during_goto ?b) = Some s"
    | (url) "\<exists>url\<in>set (concat (map tick_urls (ticks ?b))). extractSellerIdFromUrl url = Some s"
    | (page) "info_oecSellerId s = info_sellerId s
        \<and> (\<exists>t\<in>set (ticks ?b). \<exists>page src. evaluate_reply t = EvalReturns page
               \<and> pageData page = Some (info_sellerId s, src))"
    by blast
  then show "(\<exists>u\<in>set (urls_seen ?b).
               extractSellerIdFromUrl u = Some \<lparr>info_sellerId = sid, info_oecSellerId = oec\<rparr>)
           \<or> (oec = sid
               \<and> (\<exists>t\<in>set (ticks ?b). \<exists>page src.
                      evaluate_reply t = EvalReturns page \<and> pageData page = Some (sid, src)))"
  proof cases
    case goto
    from onResponses_source [OF goto]
    have "\<exists>u\<in>set (responses_during_goto ?b). extractSellerIdFromUrl u = Some s" by simp
    then show ?thesis unfolding rec by (auto simp: urls_seen_def)
  next
    case url
    then show ?thesis unfolding rec by (auto simp: urls_seen_def)
  next
    case page
    then show ?thesis using s(2,3) by auto
  qed
next
  assume "snd (fetchTikTokDataFast e port p) = Inr d"
  then show "StatApi (sellerId d) (oecSellerId d)
        (cookieString (got_cookies (browserPhase (browser e))))
      \<in> set (fst (fetchTikTokDataFast e port p))"
    by (auto simp: fetchTikTokDataFast_def Let_def split: if_splits sum.splits)
qed

lemma browser_url_both:
  "browserPhase (browser (fast attempt_url_both))
     = \<lparr>caught = None, got_sellerId = ''7001'', got_oecSellerId = ''9001'',
        got_cookies = [\<lparr>cookie_name = ''sid'', cookie_value = ''abc''\<rparr>]\<rparr>"
  by code_simp

lemma browser_page_seller_id:
  "browserPhase (browser (fast attempt_page_seller_id))
     = \<lparr>caught = None, got_sellerId = ''7001'', got_oecSellerId = ''7001'',
        got_cookies = [\<lparr>cookie_name = ''sid'', cookie_value = ''abc''\<rparr>]\<rparr>"
  by code_simp

lemma sample_fast_fields:
  "stat_reply (fast (attempt_with sr ts)) = Inr (Some ''$12.50'')"
  "payment_reply (fast (attempt_with sr ts)) = Inl ''Request failed with status code 500''"
  "stop_reply_fast (fast (attempt_with sr ts)) = StopRejected ''socket hang up''"
  "stop_reply_catch (attempt_with sr ts) = StopRejected ''socket hang up''"
  "start_r (attempt_with sr ts) = sr"
  "status_r (attempt_with sr ts) = StatusResolved (Some 9222)"
  "clock_year (fast (attempt_with sr ts)) = 2026"
  "clock_month (fast (attempt_with sr ts)) = 0"
  by (simp_all add: attempt_with_def fast_with_def)

lemma fetch_url_both:
  "fst (fetchTikTokDataFast (fast attempt_url_both) port p)
     = [BrowserConnect port, CallStop p (StopRejected ''socket hang up''),
        StatApi ''7001'' ''9001'' ''sid=abc'', PaymentApi ''7001'' ''9001'', MonthlyApi]"
  unfolding fetchTikTokDataFast_def Let_def browser_url_both
  by (simp add: attempt_url_both_def sample_fast_fields cookieString_def)

lemma fetch_page_seller_id:
  "fst (fetchTikTokDataFast (fast attempt_page_seller_id) port p)
     = [BrowserConnect port, CallStop p (StopRejected ''socket hang up''),
        StatApi ''7001'' ''7001'' ''sid=abc'', PaymentApi ''7001'' ''7001'', MonthlyApi]"
  "\<exists>d. snd (fetchTikTokDataFast (fast attempt_page_seller_id) port p) = Inr d
       \<and> sellerId d = ''7001'' \<and> oecSellerId d = ''7001''"
  unfolding fetchTikTokDataFast_def Let_def browser_page_seller_id
  by (simp_all add: attempt_page_seller_id_def sample_fast_fields cookieString_def)

text \<open>The theorem at an extraction that reads both identifiers from the page's URL.\<close>

theorem session_identifier_sources_witness:
  "extractSellerIdFromUrl sample_url_both
     = Some \<lparr>info_sellerId = ''7001'', info_oecSellerId = ''9001''\<rparr>
   \<and> (\<exists>params. searchParams sample_url_both = Some params
         \<and> map_of params ''seller_id'' = Some ''7001''
         \<and> map_of params ''oec_seller_id'' = Some ''9001'')
   \<and> StatApi ''7001'' ''9001'' ''sid=abc''
       \<in> set (fst (fetchTikTokDataFast (fast attempt_url_both) 9222 ''p1''))
   \<and> got_cookies (browserPhase (browser (fast attempt_url_both))) \<noteq> []
   \<and> ((\<exists>u\<in>set (urls_seen (browser (fast attempt_url_both))).
          extractSellerIdFromUrl u = Some \<lparr>info_sellerId = ''7001'', info_oecSellerId = ''9001''\<rparr>)
       \<or> (''9001'' = ''7001''
           \<and> (\<exists>t\<in>set (ticks (browser (fast attempt_url_both))). \<exists>page src.
                  evaluate_reply t = EvalReturns page \<and> pageData page = Some (''7001'', src))))"
proof -
  have h1: "extractSellerIdFromUrl sample_url_both
     = Some \<lparr>info_sellerId = ''7001'', info_oecSellerId = ''9001''\<rparr>"
    by code_simp
  have h2: "StatApi ''7001'' ''9001'' ''sid=abc''
       \<in> set (fst (fetchTikTokDataFast (fast attempt_url_both) 9222 ''p1''))"
    unfolding fetch_url_both by simp
  note T = session_identifier_sources [where url = sample_url_both
      and s = "\<lparr>info_sellerId = ''7001'', info_oecSellerId = ''9001''\<rparr>"
      and sid = "''7001''" and oec = "''9001''" and ck = "''sid=abc''"
      and e = "fast attempt_url_both" and port = 9222 and p = "''p1''"]
  from T h1 have c1: "\<exists>params. searchParams sample_url_both = Some params
         \<and> map_of params ''seller_id'' = Some ''7001''
         \<and> map_of params ''oec_seller_id'' = Some ''9001''"
    by simp
  from T h2 have c2: "got_cookies (browserPhase (browser (fast attempt_url_both))) \<noteq> []"
    and c3: "(\<exists>u\<in>set (urls_seen (browser (fast attempt_url_both))).
          extractSellerIdFromUrl u = Some \<lparr>info_sellerId = ''7001'', info_oecSellerId = ''9001''\<rparr>)
       \<or> (''9001'' = ''7001''
           \<and> (\<exists>t\<in>set (ticks (browser (fast attempt_url_both))). \<exists>page src.
                  evaluate_reply t = EvalReturns page \<and> pageData page = Some (''7001'', src)))"
    by blast+
  from h1 c1 h2 c2 c3 show ?thesis by (intro conjI)
qed

text \<open>
  C5 as stated fails: no URL that the extraction sees carries \<^verbatim>\<open>oec_seller_id\<close> (or
  yields identifiers at all), only \<^verbatim>\<open>seller_id\<close> is found, in the page content; yet
  the session is handed to the direct data client and a result is returned, with
  the seller ID standing in for the second identifier.
\<close>

theorem session_identifier_counterexample:
  "filter (\<lambda>u. extractSellerIdFromUrl u \<noteq> None) (urls_seen (browser (fast attempt_page_seller_id)))
     = []
   \<and> filter (\<lambda>u. case searchParams u of
                   Some params \<Rightarrow> map_of params ''oec_seller_id'' \<noteq> None
                 | None \<Rightarrow> False)
       (urls_seen (browser (fast attempt_page_seller_id))) = []
   \<and> fst (fetchTikTokDataFast (fast attempt_page_seller_id) 9222 ''p1'')
       = [BrowserConnect 9222, CallStop ''p1'' (StopRejected ''socket hang up''),
          StatApi ''7001'' ''7001'' ''sid=abc'', PaymentApi ''7001'' ''7001'', MonthlyApi]
   \<and> (\<exists>d. snd (fetchTikTokDataFast (fast attempt_page_seller_id) 9222 ''p1'') = Inr d
         \<and> sellerId d = ''7001'' \<and> oecSellerId d = ''7001'')"
proof -
  have 1: "filter (\<lambda>u. extractSellerIdFromUrl u \<noteq> None)
      (urls_seen (browser (fast attempt_page_seller_id))) = []"
    by code_simp
  have 2: "filter (\<lambda>u. case searchParams u of
                   Some params \<Rightarrow> map_of params ''oec_seller_id'' \<noteq> None
                 | None \<Rightarrow> False)
       (urls_seen (browser (fast attempt_page_seller_id))) = []"
    by code_simp
  from 1 2 fetch_page_seller_id show ?thesis by (intro conjI)
qed

subsection \<open>The batch at a sample\<close>

lemma job_in_use:
  assumes "start_r (env 0) = StartRejected (Some 400) m"
  shows "snd (processProfile env p idx 0) = failure_result p skipped_message"
  using processProfile_returned [of env 0 p "failure_result p skipped_message" idx]
    tryProfile_400 [OF assms, of p]
  by simp

lemma job_fetched:
  assumes "snd (batch_start (env 0) p) = Port port"
    "snd (fetchTikTokDataFast (fast (env 0)) port p) = Inr d"
  shows "res_success (snd (processProfile env p idx 0))"
proof (cases "env 0" p rule: tryProfile_cases)
  case in_use
  with assms(1) show ?thesis by simp
next
  case (thrown m)
  with assms(1) show ?thesis by simp
next
  case (fetched port')
  with assms obtain r where "snd (tryProfile (env 0) p) = Inr r" "res_success r"
    by auto
  then show ?thesis
    using processProfile_returned [of env 0 p r idx] by simp
qed

text \<open>
  The theorem for four profiles, two chunks, the first chunk completing in the
  order 2, 0, 1.
\<close>

theorem batch_results_in_input_order_witness:
  "set (sample_completion 0) = {0..<3} \<and> set (sample_completion 1) = {0..<1}
   \<and> (\<exists>results. batchFetchTikTok sample_batch_env sample_completion [''p1'', ''p2'', ''p3'', ''p4'']
                    = Some results
         \<and> length results = 4
         \<and> map res_profileId results = [''p1'', ''p2'', ''p3'', ''p4'']
         \<and> map res_success results = [False, True, False, False])"
proof -
  let ?ids = "[''p1'', ''p2'', ''p3'', ''p4'']"
  let ?job = "\<lambda>k. snd (processProfile (sample_batch_env k) (?ids ! k) k 0)"
  have c0: "set (sample_completion 0) = {0..<3}" and c1: "set (sample_completion 1) = {0..<1}"
    by (auto simp: sample_completion_def)
  have h: "\<forall>c. c * CHUNK_SIZE < length ?ids \<longrightarrow>
      set (sample_completion c) = {0..<min CHUNK_SIZE (length ?ids - c * CHUNK_SIZE)}"
  proof (intro allI impI)
    fix c assume "c * CHUNK_SIZE < length ?ids"
    then have "c = 0 \<or> c = 1" by (auto simp: CHUNK_SIZE_def)
    then show "set (sample_completion c) = {0..<min CHUNK_SIZE (length ?ids - c * CHUNK_SIZE)}"
      by (auto simp: CHUNK_SIZE_def sample_completion_def)
  qed
  from batch_results_in_input_order [OF h, of sample_batch_env]
  obtain results where r:
    "batchFetchTikTok sample_batch_env sample_completion ?ids = Some results
     \<and> length results = length ?ids
     \<and> map res_profileId results = ?ids
     \<and> results = map ?job [0..<length ?ids]" ..
  then have r1: "batchFetchTikTok sample_batch_env sample_completion ?ids = Some results"
    and r2: "length results = length ?ids"
    and r3: "map res_profileId results = ?ids"
    and r4: "results = map ?job [0..<length ?ids]"
    by (rule conjunct1, (rule conjunct2 [THEN conjunct1]),
        (rule conjunct2 [THEN conjunct2, THEN conjunct1]),
        (rule conjunct2 [THEN conjunct2, THEN conjunct2]))
  have skip: "res_success (?job k) = False" if "k \<noteq> 1" for k
  proof -
    have "start_r (sample_batch_env k 0)
        = StartRejected (Some 400) ''Request failed with status code 400''"
      using that by (simp add: sample_batch_env_def sample_fast_fields)
    from job_in_use [of "sample_batch_env k", OF this]
    show ?thesis by (simp add: failure_result_def)
  qed
  have ok: "res_success (?job 1) = True"
  proof -
    have s: "snd (batch_start (sample_batch_env 1 0) (?ids ! 1)) = Port 9222"
      by (simp add: sample_batch_env_def attempt_page_seller_id_def sample_fast_fields
          startProfile_def)
    from fetch_page_seller_id(2) [of 9222 "?ids ! 1"]
    obtain d where "snd (fetchTikTokDataFast (fast (sample_batch_env 1 0)) 9222 (?ids ! 1)) = Inr d"
      by (auto simp: sample_batch_env_def)
    from job_fetched [of "sample_batch_env 1", OF s this] show ?thesis by simp
  qed
  have idx: "[0..<length ?ids] = [0, 1, 2, 3]" by (simp add: upt_rec)
  have s: "map res_success results = [False, True, False, False]"
    unfolding r4 idx using skip [of 0] skip [of 2] skip [of 3] ok by simp
  from r2 have l: "length results = 4" by simp
  have "\<exists>results. batchFetchTikTok sample_batch_env sample_completion ?ids = Some results
         \<and> length results = 4
         \<and> map res_profileId results = ?ids
         \<and> map res_success results = [False, True, False, False]"
    by (rule exI [of _ results]) (intro conjI r1 l r3 s)
  with c0 c1 show ?thesis by (intro conjI)
qed

section \<open>The login automaton: proofs\<close>

lemma afterSubmit_manual:
  assumes "two_factor_appears e"
    "\<not> secret_configured credentials \<or> get2FACode (totp_reply e) = None"
  shows "afterSubmit e credentials
     = disconnect_return e
         \<lparr>login_success = True, login_message = ''2FA required - please enter code manually'',
          requires2FA = Some True\<rparr>"
  using assms
  by (auto simp: afterSubmit_def secret_configured_def split: option.splits)

lemma loginFlow_submitted:
  assumes "reachForm e = FormVisible" "fillAndSubmit e = None"
  shows "loginFlow e credentials = afterSubmit e credentials"
  using assms by (simp add: loginFlow_def)

text \<open>
  When the final \<^verbatim>\<open>browser.disconnect()\<close> of that branch (line 322) throws, the outer
  \<^verbatim>\<open>catch\<close> reports the exception.
\<close>

lemma two_factor_manual_disconnect_throws:
  assumes "reachForm e = FormVisible" "fillAndSubmit e = None" "two_factor_appears e"
    "\<not> secret_configured credentials \<or> get2FACode (totp_reply e) = None"
    "l_disconnect e = Some m"
  shows "loginTikTokSeller e credentials
     = \<lparr>login_success = False, login_message = m, requires2FA = None\<rparr>"
  using assms(5)
  by (simp add: loginTikTokSeller_def loginFlow_submitted [OF assms(1,2)]
      afterSubmit_manual [OF assms(3,4)] disconnect_return_def)



section \<open>Stop requests after a start: proofs\<close>

lemma runAndFetch_trace: "fst (runAndFetchTikTok a p) = fst (tryProfile a p)"
proof -
  obtain evs out where s: "batch_start a p = (evs, out)"
    by (cases "batch_start a p")
  show ?thesis
  proof (cases out)
    case (Port port)
    obtain f v where fr: "fetchTikTokDataFast (fast a) port p = (f, v)"
      by (cases "fetchTikTokDataFast (fast a) port p")
    show ?thesis
      by (cases v) (simp_all add: runAndFetchTikTok_def tryProfile_def s Port fr)
  next
    case InUse400
    then show ?thesis by (simp add: runAndFetchTikTok_def tryProfile_def s)
  next
    case (StartThrown m)
    then show ?thesis by (simp add: runAndFetchTikTok_def tryProfile_def s)
  qed
qed

lemma runAndFetch_cover: "stops_cover (fst (runAndFetchTikTok a p))"
  using tryProfile_cover [of a p "[]"] by (simp add: runAndFetch_trace)

lemma runAndFetch_stop_reply_swallowed:
  "snd (runAndFetchTikTok (with_stop_replies r1 r2 a) p) = snd (runAndFetchTikTok a p)"
proof -
  obtain evs out where s: "batch_start a p = (evs, out)"
    by (cases "batch_start a p")
  have s': "batch_start (with_stop_replies r1 r2 a) p = (evs, out)"
    using s by (simp add: with_stop_replies_def)
  show ?thesis
  proof (cases out)
    case (Port port)
    obtain f v where fr: "fetchTikTokDataFast (fast a) port p = (f, v)"
      by (cases "fetchTikTokDataFast (fast a) port p")
    obtain f' v' where fr': "fetchTikTokDataFast (fast (with_stop_replies r1 r2 a)) port p = (f', v')"
      by (cases "fetchTikTokDataFast (fast (with_stop_replies r1 r2 a)) port p")
    have "v' = v"
      using fetch_stop_reply_swallowed [where e = "fast a" and r = r1 and port = port and p = p] fr fr'
      by (simp add: with_stop_replies_def)
    then show ?thesis
      by (cases v) (simp_all add: runAndFetchTikTok_def s s' Port fr fr')
  next
    case InUse400
    then show ?thesis by (simp add: runAndFetchTikTok_def s s')
  next
    case (StartThrown m)
    then show ?thesis by (simp add: runAndFetchTikTok_def s s')
  qed
qed

text \<open>The login handler's trace: the start block, and after a start the pause and the connection.\<close>

lemma loginHandler_trace:
  "filter is_stop (fst (loginTikTokHandler h store positions p pname)) = []"
proof -
  let ?start = "startProfile ''Failed to start profile'' ''Profile conflict - could not get port''
                  (h_start h) (h_status h) p"
  obtain evs out where s: "?start = (evs, out)"
    by (cases ?start)
  have evs: "filter is_stop evs = []"
    using startProfile_one_start(2)
      [of "''Failed to start profile''" "''Profile conflict - could not get port''"
          "h_start h" "h_status h" p]
    by (simp add: s)
  show ?thesis
    by (cases out)
      (simp_all add: loginTikTokHandler_def s evs split: option.splits prod.splits)
qed

text \<open>
  C2 (amended). In the batch job (\<^verbatim>\<open>processProfile\<close>, with its retry) and in the
  run-and-fetch handler, every event by which the job obtains the port of a
  profile - a start request answered with code 1 and success, or the status
  request after a 409 - is followed in the job's trace by a stop request for that
  profile, before the job sends another start request for it and before it
  returns; this holds for every environment, so on success, on a failed
  extraction and on an exception alike.  The replies to the stop requests,
  rejections included, do not change the job's result.  The login handler sends
  no stop request.
\<close>

theorem stop_after_start:
  "stops_cover (fst (processProfile env p idx rc))
   \<and> stops_cover (fst (runAndFetchTikTok a p))
   \<and> snd (processProfile (\<lambda>n. with_stop_replies (r1 n) (r2 n) (env n)) p idx rc)
       = snd (processProfile env p idx rc)
   \<and> snd (runAndFetchTikTok (with_stop_replies s1 s2 a) p) = snd (runAndFetchTikTok a p)
   \<and> filter is_stop (fst (loginTikTokHandler h store positions p pname)) = []"
  using processProfile_cover [of env p idx rc] runAndFetch_cover [of a p]
    processProfile_stop_replies_swallowed [of r1 r2 env p idx rc]
    runAndFetch_stop_reply_swallowed [of s1 s2 a p]
    loginHandler_trace [of h store positions p pname]
  by (intro conjI)

text \<open>
  The theorem at a profile that starts on port 9222 and shows no identifiers: the
  run-and-fetch handler's trace holds the stop request, whose rejection is not
  reported.
\<close>

theorem stop_after_start_witness:
  "fst (runAndFetchTikTok attempt_finding_nothing ''p1'')
     = [CallStart ''p1'' (StartResolved 1 True 9222), Sleep 3000, BrowserConnect 9222,
        CallStop ''p1'' (StopRejected ''socket hang up'')]
   \<and> stops_cover (fst (processProfile (\<lambda>n. attempt_finding_nothing) ''p1'' 0 0))
   \<and> stops_cover (fst (runAndFetchTikTok attempt_finding_nothing ''p1''))
   \<and> snd (processProfile (\<lambda>n. with_stop_replies StopResolved StopResolved attempt_finding_nothing)
            ''p1'' 0 0)
       = snd (processProfile (\<lambda>n. attempt_finding_nothing) ''p1'' 0 0)
   \<and> snd (runAndFetchTikTok (with_stop_replies StopResolved StopResolved attempt_finding_nothing)
            ''p1'')
       = snd (runAndFetchTikTok attempt_finding_nothing ''p1'')
   \<and> filter is_stop (fst (loginTikTokHandler handler_already_in sample_store {} ''p1'' None)) = []"
proof -
  have t: "fst (runAndFetchTikTok attempt_finding_nothing ''p1'')
     = [CallStart ''p1'' (StartResolved 1 True 9222), Sleep 3000, BrowserConnect 9222,
        CallStop ''p1'' (StopRejected ''socket hang up'')]"
    by (simp add: runAndFetch_trace try_finding_nothing)
  note stop_after_start
    [of "\<lambda>n. attempt_finding_nothing" "''p1''" 0 0 attempt_finding_nothing
        "\<lambda>n. StopResolved" "\<lambda>n. StopResolved" StopResolved StopResolved
        handler_already_in sample_store "{}" None]
  with t show ?thesis by simp
qed

text \<open>
  C2 as stated fails in the login handler: the profile ''p1'' starts on port 9222,
  the login returns "Already logged in!", and the handler's trace holds no stop
  request.
\<close>

theorem stop_after_start_counterexample:
  "fst (loginTikTokHandler handler_already_in sample_store {} ''p1'' None)
     = [CallStart ''p1'' (StartResolved 1 True 9222), Sleep 3000, BrowserConnect 9222]
   \<and> obtained_port (CallStart ''p1'' (StartResolved 1 True 9222)) = Some ''p1''
   \<and> \<not> stops_cover (fst (loginTikTokHandler handler_already_in sample_store {} ''p1'' None))
   \<and> snd (snd (loginTikTokHandler handler_already_in sample_store {} ''p1'' None))
       = \<lparr>login_success = True, login_message = ''Already logged in!'', requires2FA = None\<rparr>"
proof -
  have t: "fst (loginTikTokHandler handler_already_in sample_store {} ''p1'' None)
     = [CallStart ''p1'' (StartResolved 1 True 9222), Sleep 3000, BrowserConnect 9222]"
    by code_simp
  have r: "snd (snd (loginTikTokHandler handler_already_in sample_store {} ''p1'' None))
       = \<lparr>login_success = True, login_message = ''Already logged in!'', requires2FA = None\<rparr>"
    by code_simp
  show ?thesis unfolding t using r by simp
qed

end
